theory Spec2Isabelle
  imports Complex_Main "HOL-Library.Sublist" "HOL-Library.Product_Lexorder"
begin

section \<open>Tables\<close>

text \<open>
  The program (\<^verbatim>\<open>src/app.py\<close>) works on pandas tables. A table is modelled by its list of
  column labels and its list of rows, in positional order; the row index labels of pandas
  play no part in the functions modelled here and are left out. A column label is an
  integer position (what the table extractor produces) or a name.

  Amounts are \<^verbatim>\<open>float64\<close> in the program; the section on floating point models them.
\<close>

datatype label = Pos nat | Name string

record 'r frame =
  columns :: "label list"
  rows :: "'r list"

text \<open>\<^verbatim>\<open>pd.DataFrame()\<close>: no columns, no rows.\<close>

definition new_frame :: "'r frame" where
  "new_frame = \<lparr>columns = [], rows = []\<rparr>"

text \<open>\<^verbatim>\<open>df.empty\<close>: true when either axis has length 0.\<close>

definition df_empty :: "'r frame \<Rightarrow> bool" where
  "df_empty df \<longleftrightarrow> columns df = [] \<or> rows df = []"

text \<open>\<^verbatim>\<open>df[mask]\<close>: the rows at the positions where the boolean mask holds.\<close>

definition boolean_index :: "'r list \<Rightarrow> bool list \<Rightarrow> 'r list" where
  "boolean_index rs m = map fst (filter snd (zip rs m))"

text \<open>A cell of extracted text; \<open>None\<close> is a missing cell (NaN).\<close>

type_synonym cell = "string option"

datatype py_error =
    ValueError_length_mismatch nat nat
  | ValueError_float string
  | ValueError_no_objects
  | IndexError
  | KeyError "label list"
  | ImportError
  | OSError
  | ParserError string
  | LibraryError string

section \<open>Floating point\<close>

text \<open>
  The amounts of the program are \<^verbatim>\<open>float64\<close> values (IEEE 754 binary64). Such a value is
  a rational number of the form \<open>n * 2 ^ k\<close>, an infinity or NaN; the sign of zero is not
  modelled, since no sum or comparison of the program depends on it. Every arithmetic
  result is the exact result rounded to the nearest value, ties to the even one:
  \<open>round64\<close>. For a positive \<open>x\<close>, \<open>exponent x\<close> is the \<open>e\<close> with
  \<open>2 ^ e \<le> x < 2 ^ (e + 1)\<close>; the values near \<open>x\<close> are the multiples of
  \<open>quantum x\<close>, which is \<open>2 ^ (e - 52)\<close>, and \<open>2 ^ (- 1074)\<close> below the normal range; a
  rounded magnitude of \<open>2 ^ 1024\<close> or more is an infinity.
\<close>

datatype f64 = Finite rat | PosInf | NegInf | NaN

fun ilog2 :: "nat \<Rightarrow> nat" where
  "ilog2 n = (if n < 2 then 0 else Suc (ilog2 (n div 2)))"

declare ilog2.simps [simp del]

definition exponent :: "rat \<Rightarrow> int" where
  "exponent x =
     (if 1 \<le> x then int (ilog2 (nat \<lfloor>x\<rfloor>))
      else - int (Suc (ilog2 (nat (\<lceil>1 / x\<rceil> - 1)))))"

definition round_half_even :: "rat \<Rightarrow> int" where
  "round_half_even r =
     (let f = \<lfloor>r\<rfloor>; d = r - of_int f
      in if d < 1 / 2 then f else if 1 / 2 < d then f + 1 else if even f then f else f + 1)"

definition quantum :: "rat \<Rightarrow> rat" where
  "quantum x = 2 powi (max (exponent \<bar>x\<bar>) (- 1022) - 52)"

definition round64 :: "rat \<Rightarrow> f64" where
  "round64 x =
     (if x = 0 then Finite 0
      else (let y = of_int (round_half_even (\<bar>x\<bar> / quantum x)) * quantum x
            in if 2 powi 1024 \<le> y then (if 0 < x then PosInf else NegInf)
               else Finite (sgn x * y)))"

text \<open>Addition, negation, subtraction, absolute value and the comparisons of float64.\<close>

fun fadd :: "f64 \<Rightarrow> f64 \<Rightarrow> f64" where
  "fadd (Finite a) (Finite b) = round64 (a + b)"
| "fadd NaN y = NaN"
| "fadd x NaN = NaN"
| "fadd PosInf NegInf = NaN"
| "fadd NegInf PosInf = NaN"
| "fadd PosInf y = PosInf"
| "fadd NegInf y = NegInf"
| "fadd x PosInf = PosInf"
| "fadd x NegInf = NegInf"

fun fneg :: "f64 \<Rightarrow> f64" where
  "fneg (Finite a) = Finite (- a)"
| "fneg PosInf = NegInf"
| "fneg NegInf = PosInf"
| "fneg NaN = NaN"

definition fsub :: "f64 \<Rightarrow> f64 \<Rightarrow> f64" where
  "fsub x y = fadd x (fneg y)"

fun fabs :: "f64 \<Rightarrow> f64" where
  "fabs (Finite a) = Finite \<bar>a\<bar>"
| "fabs PosInf = PosInf"
| "fabs NegInf = PosInf"
| "fabs NaN = NaN"

fun flt :: "f64 \<Rightarrow> f64 \<Rightarrow> bool" where
  "flt (Finite a) (Finite b) \<longleftrightarrow> a < b"
| "flt NaN y \<longleftrightarrow> False"
| "flt x NaN \<longleftrightarrow> False"
| "flt PosInf y \<longleftrightarrow> False"
| "flt x NegInf \<longleftrightarrow> False"
| "flt NegInf y \<longleftrightarrow> True"
| "flt x PosInf \<longleftrightarrow> True"

definition fgt :: "f64 \<Rightarrow> f64 \<Rightarrow> bool" where
  "fgt x y \<longleftrightarrow> flt y x"

text \<open>A value that float64 holds: rounding leaves it as it is.\<close>

definition is_f64 :: "f64 \<Rightarrow> bool" where
  "is_f64 v = (case v of Finite x \<Rightarrow> round64 x = Finite x | _ \<Rightarrow> True)"

section \<open>Rows\<close>

text \<open>
  Text is a list of code points. The type \<open>char\<close> holds the code points 0 to 255, which
  covers every character of the program's own texts: \<open>CHR 0xD3\<close> is the capital O with
  acute accent, \<open>CHR 0xF3\<close> the small one, \<open>CHR 0xED\<close> the small i with acute accent.

  Line 40 names the six columns of a statement: Fecha, Descripcion, Sucursal, Doc, Valor,
  Saldo (the accent of the second name is dropped in the field name). A row of such a table
  is a record; the type of the date column and the type of the two amount columns change
  along \<^verbatim>\<open>process_transactions\<close> (text, then timestamp-or-NaT, then timestamp; text, then
  number), so both are parameters.
\<close>

record ('f, 'v) statement_row =
  Fecha :: 'f
  Descripcion :: cell
  Sucursal :: cell
  Doc :: cell
  Valor :: 'v
  Saldo :: 'v

text \<open>Lines 55 to 62 add the columns Categoria, Ingresos, Egresos, Flujo Neto, Saldo Acumulado.\<close>

record ('f, 'v) txn = "('f, 'v) statement_row" +
  Categoria :: string
  Ingresos :: 'v
  Egresos :: 'v
  Flujo_Neto :: 'v
  Saldo_Acumulado :: 'v

text \<open>Line 92 adds the column FechaStr.\<close>

record ('f, 'v) txn_str = "('f, 'v) txn" +
  FechaStr :: string

definition Descripcion_label :: string where
  "Descripcion_label = ''Descripci'' @ [CHR 0xF3] @ ''n''"

definition Categoria_label :: string where
  "Categoria_label = ''Categor'' @ [CHR 0xED] @ ''a''"

definition statement_columns :: "label list" where
  "statement_columns =
     [Name ''Fecha'', Name Descripcion_label, Name ''Sucursal'', Name ''Doc'', Name ''Valor'',
      Name ''Saldo'']"

definition derived_columns :: "label list" where
  "derived_columns =
     [Name Categoria_label, Name ''Ingresos'', Name ''Egresos'', Name ''Flujo Neto'',
      Name ''Saldo Acumulado'']"

text \<open>What the program hands to \<^verbatim>\<open>st.error\<close> and \<^verbatim>\<open>st.warning\<close>, by source line.\<close>

datatype message =
    No_se_pudieron_detectar_tablas
  | Error_al_procesar_el_PDF py_error
  | Error_al_procesar_las_transacciones py_error
  | Discrepancias_en_saldos nat
  | No_se_pudieron_extraer_datos_validos
  | Error_procesando_el_extracto py_error
  | Error_al_cargar string py_error

datatype diag = St_error message | St_warning message

section \<open>Library calls on text\<close>

text \<open>
  \<^verbatim>\<open>re.search(pattern, text)\<close> for the patterns of this program, which are literal
  alternatives separated by \<^verbatim>\<open>|\<close> without any other special character: the search
  succeeds when one alternative occurs in the text as a contiguous piece.
\<close>

fun split_on :: "'a \<Rightarrow> 'a list \<Rightarrow> 'a list list" where
  "split_on sep [] = [[]]"
| "split_on sep (c # cs) =
     (if c = sep then [] # split_on sep cs
      else (case split_on sep cs of
              [] \<Rightarrow> [[c]]
            | w # ws \<Rightarrow> (c # w) # ws))"

definition alternatives :: "string \<Rightarrow> string list" where
  "alternatives pat = split_on (CHR ''|'') pat"

definition re_search :: "string \<Rightarrow> string \<Rightarrow> bool" where
  "re_search pat s \<longleftrightarrow> list_ex (\<lambda>alt. sublist alt s) (alternatives pat)"

text \<open>\<^verbatim>\<open>str(x)\<close> and \<^verbatim>\<open>astype(str)\<close> on a cell: a missing cell reads \<^verbatim>\<open>nan\<close>.\<close>

definition py_str :: "cell \<Rightarrow> string" where
  "py_str c = (case c of None \<Rightarrow> ''nan'' | Some s \<Rightarrow> s)"

definition is_digit :: "char \<Rightarrow> bool" where
  "is_digit c \<longleftrightarrow> c \<in> set ''0123456789''"

text \<open>
  Line 47, \<^verbatim>\<open>.str.replace(r"[^\d\-.,]", "", regex=True)\<close>: only digits, minus signs, dots
  and commas stay. Line 48, \<^verbatim>\<open>.str.replace(",", "")\<close>: the commas go.
\<close>

definition strip_currency :: "string \<Rightarrow> string" where
  "strip_currency s =
     filter (\<lambda>c. is_digit c \<or> c = CHR ''-'' \<or> c = CHR ''.'' \<or> c = CHR '','') s"

definition strip_commas :: "string \<Rightarrow> string" where
  "strip_commas s = filter (\<lambda>c. c \<noteq> CHR '','') s"

text \<open>
  \<^verbatim>\<open>float(s)\<close> on a text of digits, minus signs and dots, which is all that lines 47 and 48
  leave: an optional leading minus sign, then digits with at most one dot and at least one
  digit. Every other such text raises \<^verbatim>\<open>ValueError\<close>. The result is the decimal number
  the text writes, rounded to float64.
\<close>

definition digits_value :: "string \<Rightarrow> nat" where
  "digits_value ds = foldl (\<lambda>n c. 10 * n + (of_char c - 48)) 0 ds"

definition unsigned_decimal :: "string \<Rightarrow> rat option" where
  "unsigned_decimal s =
     (let ds = takeWhile is_digit s; rest = dropWhile is_digit s
      in case rest of
           [] \<Rightarrow> if ds = [] then None else Some (of_nat (digits_value ds))
         | c # fs \<Rightarrow>
             if c = CHR ''.'' \<and> list_all is_digit fs \<and> (ds \<noteq> [] \<or> fs \<noteq> [])
             then Some (of_nat (digits_value ds) + of_nat (digits_value fs) / 10 ^ length fs)
             else None)"

definition py_float :: "string \<Rightarrow> py_error + f64" where
  "py_float s =
     (case (case s of
              [] \<Rightarrow> None
            | c # t \<Rightarrow> if c = CHR ''-'' then map_option uminus (unsigned_decimal t)
                       else unsigned_decimal s) of
        None \<Rightarrow> Inl (ValueError_float s)
      | Some x \<Rightarrow> Inr (round64 x))"

text \<open>\<^verbatim>\<open>.astype(float)\<close> on a column: the first text that is no number raises.\<close>

fun astype_float :: "string list \<Rightarrow> py_error + f64 list" where
  "astype_float [] = Inr []"
| "astype_float (s # ss) =
     (case py_float s of
        Inl e \<Rightarrow> Inl e
      | Inr x \<Rightarrow> (case astype_float ss of Inl e \<Rightarrow> Inl e | Inr xs \<Rightarrow> Inr (x # xs)))"

section \<open>extract_bank_data\<close>

text \<open>
  \<^verbatim>\<open>pd.concat(frames)\<close>: the columns of the result are the labels of all frames in order of
  first appearance, the rows follow frame after frame, and a cell of a column that a frame
  does not have is missing. An empty list of frames raises \<^verbatim>\<open>ValueError\<close>.
\<close>

fun index_of :: "'a \<Rightarrow> 'a list \<Rightarrow> nat option" where
  "index_of x [] = None"
| "index_of x (y # ys) = (if x = y then Some 0 else map_option Suc (index_of x ys))"

definition union_labels :: "label list list \<Rightarrow> label list" where
  "union_labels css = foldl (\<lambda>acc cs. acc @ filter (\<lambda>c. c \<notin> set acc) cs) [] css"

definition reindex_row :: "label list \<Rightarrow> label list \<Rightarrow> cell list \<Rightarrow> cell list" where
  "reindex_row new old r =
     map (\<lambda>l. case index_of l old of None \<Rightarrow> None | Some i \<Rightarrow> r ! i) new"

definition pd_concat :: "cell list frame list \<Rightarrow> py_error + cell list frame" where
  "pd_concat dfs =
     (if dfs = [] then Inl ValueError_no_objects
      else (let cols = union_labels (map columns dfs)
            in Inr \<lparr>columns = cols,
                    rows = concat (map (\<lambda>df. map (reindex_row cols (columns df)) (rows df)) dfs)\<rparr>))"

text \<open>
  Line 27 keeps the rows whose cell in column 0 does not contain the header pattern
  (\<^verbatim>\<open>str.contains\<close> with \<^verbatim>\<open>na=False\<close>, negated). Reading column 0 raises \<^verbatim>\<open>KeyError\<close> when no column has that label; a missing cell counts as
  not containing the pattern.
\<close>

definition header_pattern :: string where
  "header_pattern = ''FECHA|DESCRIPCI'' @ [CHR 0xD3] @ ''N''"

definition str_contains :: "string \<Rightarrow> cell \<Rightarrow> bool" where
  "str_contains pat c = (case c of None \<Rightarrow> False | Some s \<Rightarrow> re_search pat s)"

definition drop_header_rows :: "cell list frame \<Rightarrow> py_error + cell list frame" where
  "drop_header_rows full_df =
     (case index_of (Pos 0) (columns full_df) of
        None \<Rightarrow> Inl (KeyError [Pos 0])
      | Some i \<Rightarrow>
          Inr (full_df\<lparr>rows :=
            boolean_index (rows full_df)
              (map (\<lambda>r. \<not> str_contains header_pattern (r ! i)) (rows full_df))\<rparr>))"

text \<open>
  What the program cannot decide by itself is a parameter: the name and the failures of the
  temporary file, whether \<^verbatim>\<open>import camelot\<close> succeeds, what \<^verbatim>\<open>camelot.read_pdf\<close> makes
  of the content of a file (\<open>None\<close>: no such file), and how pandas reads and prints
  timestamps.
\<close>

record 'd environment =
  tmp_name :: string
  create_error :: "py_error option"
  write_error :: "py_error option"
  import_error :: "py_error option"
  read_pdf :: "string option \<Rightarrow> py_error + cell list frame list"
  to_datetime_dayfirst :: "string \<Rightarrow> 'd option"
  strftime :: "string \<Rightarrow> 'd \<Rightarrow> string"

text \<open>
  Lines 17 to 34. The import at line 18 stands before the \<^verbatim>\<open>try\<close> of line 19, so its
  exception leaves the function; every exception of lines 20 to 31 is caught at line 32.
\<close>

definition extract_bank_data ::
  "'d environment \<Rightarrow> (string \<rightharpoonup> string) \<Rightarrow> string \<Rightarrow> py_error + (cell list frame \<times> diag list)"
  where
  "extract_bank_data env files pdf_path =
     (case import_error env of
        Some e \<Rightarrow> Inl e
      | None \<Rightarrow>
          Inr (case read_pdf env (files pdf_path) of
                 Inl e \<Rightarrow> (new_frame, [St_error (Error_al_procesar_el_PDF e)])
               | Inr tables \<Rightarrow>
                   if length tables > 0
                   then (case pd_concat tables of
                           Inl e \<Rightarrow> (new_frame, [St_error (Error_al_procesar_el_PDF e)])
                         | Inr full_df \<Rightarrow>
                             (case drop_header_rows full_df of
                                Inl e \<Rightarrow> (new_frame, [St_error (Error_al_procesar_el_PDF e)])
                              | Inr clean_df \<Rightarrow> (clean_df, [])))
                   else (new_frame, [St_error No_se_pudieron_detectar_tablas])))"

section \<open>process_transactions\<close>

text \<open>Lines 49 to 53: the rule table, in the order of the dictionary.\<close>

definition patterns :: "(string \<times> string) list" where
  "patterns =
     [(''Ingresos'',
       ''PAGO INTERBANC|ABONO|DEP'' @ [CHR 0xD3] @ ''SITO|N'' @ [CHR 0xD3]
         @ ''MINA|TRANSFERENCIA A FAVOR''),
      (''Egresos'',
       ''IMPUESTO|COMISI'' @ [CHR 0xD3] @ ''N|RETIRO|PAGO A PROVE|TRANSFERENCIA''),
      (''Servicios'', ''CUOTA MANEJO|SEGUROS|TARJETA|AGUA|LUZ|GAS'')]"

text \<open>
  Line 56: \<^verbatim>\<open>next((k for k, v in patterns.items() if re.search(v, str(x))), "Otros")\<close>.
\<close>

definition categorize :: "cell \<Rightarrow> string" where
  "categorize x =
     (case find (\<lambda>(k, v). re_search v (py_str x)) patterns of
        Some (k, v) \<Rightarrow> k
      | None \<Rightarrow> ''Otros'')"

text \<open>
  Line 40, \<^verbatim>\<open>raw_df.columns = [...]\<close>: pandas raises \<^verbatim>\<open>ValueError\<close> (length mismatch)
  unless the table has six columns. The six cells of a row are read by position; in a
  table every row is as wide as the list of columns.
\<close>

definition name_row :: "cell list \<Rightarrow> (cell, cell) statement_row" where
  "name_row r =
     \<lparr>Fecha = r ! 0, Descripcion = r ! 1, Sucursal = r ! 2, Doc = r ! 3, Valor = r ! 4,
      Saldo = r ! 5\<rparr>"

definition set_columns :: "cell list frame \<Rightarrow> py_error + (cell, cell) statement_row frame" where
  "set_columns df =
     (if length (columns df) \<noteq> 6
      then Inl (ValueError_length_mismatch (length (columns df)) 6)
      else Inr \<lparr>columns = statement_columns, rows = map name_row (rows df)\<rparr>)"

text \<open>
  Line 42, \<^verbatim>\<open>pd.to_datetime(raw_df["Fecha"], dayfirst=True, errors='coerce')\<close>. How the
  library reads one text is the parameter \<open>to_datetime\<close>, with \<open>None\<close> for NaT; a
  missing cell gives NaT.
\<close>

definition with_Fecha :: "'g \<Rightarrow> ('f, 'v) statement_row \<Rightarrow> ('g, 'v) statement_row" where
  "with_Fecha d r =
     \<lparr>Fecha = d, Descripcion = Descripcion r, Sucursal = Sucursal r, Doc = Doc r,
      Valor = Valor r, Saldo = Saldo r\<rparr>"

definition coerce_Fecha ::
  "(string \<Rightarrow> 'd option) \<Rightarrow> (cell, cell) statement_row frame \<Rightarrow> ('d option, cell) statement_row frame"
  where
  "coerce_Fecha to_datetime df =
     \<lparr>columns = columns df,
      rows = map (\<lambda>r. with_Fecha (Option.bind (Fecha r) to_datetime) r) (rows df)\<rparr>"

text \<open>Line 43, \<^verbatim>\<open>raw_df.dropna(subset=["Fecha"])\<close>: a new table without the NaT rows.\<close>

definition dropna_Fecha ::
  "('d option, cell) statement_row frame \<Rightarrow> ('d, cell) statement_row frame" where
  "dropna_Fecha df =
     \<lparr>columns = columns df,
      rows = List.map_filter (\<lambda>r. map_option (\<lambda>d. with_Fecha d r) (Fecha r)) (rows df)\<rparr>"

text \<open>
  Lines 44 to 48: the loop over \<^verbatim>\<open>["Valor", "Saldo"]\<close>. The whole column Valor is
  converted first, then the whole column Saldo; both labels are among the columns after
  line 40.
\<close>

definition currency_text :: "cell \<Rightarrow> string" where
  "currency_text c = strip_commas (strip_currency (py_str c))"

definition with_amounts :: "('f, 'u) statement_row \<Rightarrow> 'v \<Rightarrow> 'v \<Rightarrow> ('f, 'v) statement_row" where
  "with_amounts r v s =
     \<lparr>Fecha = Fecha r, Descripcion = Descripcion r, Sucursal = Sucursal r, Doc = Doc r,
      Valor = v, Saldo = s\<rparr>"

definition currency_columns ::
  "('d, cell) statement_row frame \<Rightarrow> py_error + ('d, f64) statement_row frame" where
  "currency_columns df =
     (case astype_float (map (\<lambda>r. currency_text (Valor r)) (rows df)) of
        Inl e \<Rightarrow> Inl e
      | Inr vs \<Rightarrow>
          (case astype_float (map (\<lambda>r. currency_text (Saldo r)) (rows df)) of
             Inl e \<Rightarrow> Inl e
           | Inr ss \<Rightarrow>
               Inr \<lparr>columns = columns df,
                    rows = map (\<lambda>(r, v, s). with_amounts r v s) (zip (rows df) (zip vs ss))\<rparr>))"

text \<open>
  Lines 54 to 60 (new columns) and 62 (Saldo Acumulado, a copy of Saldo; sorting rows does
  not change it). The \<^verbatim>\<open>0\<close> of \<^verbatim>\<open>np.where\<close> is the float64 zero.
\<close>

definition derive_row :: "('d, f64) statement_row \<Rightarrow> ('d, f64) txn" where
  "derive_row r =
     \<lparr>Fecha = Fecha r, Descripcion = Descripcion r, Sucursal = Sucursal r, Doc = Doc r,
      Valor = Valor r, Saldo = Saldo r,
      Categoria = categorize (Descripcion r),
      Ingresos = (if fgt (Valor r) (Finite 0) then Valor r else Finite 0),
      Egresos = (if flt (Valor r) (Finite 0) then fabs (Valor r) else Finite 0),
      Flujo_Neto = Valor r,
      Saldo_Acumulado = Saldo r\<rparr>"

text \<open>
  Line 61, \<^verbatim>\<open>sort_values("Fecha")\<close>, is modelled by a stable sort. The sort pandas uses by
  default is not stable, so rows with equal timestamps may come in another order there.
\<close>

definition derive_and_sort ::
  "('d::linorder, f64) statement_row frame \<Rightarrow> ('d, f64) txn frame" where
  "derive_and_sort df =
     \<lparr>columns = columns df @ derived_columns,
      rows = sort_key Fecha (map derive_row (rows df))\<rparr>"

text \<open>
  What a call leaves behind: the table object the caller passed (lines 40 and 42 assign to
  it; line 43 rebinds the local name to a new table, so later lines do not touch it), the
  table returned, and the messages sent to \<^verbatim>\<open>st.error\<close>.
\<close>

datatype 'd argument =
    Untouched "cell list frame"
  | Renamed_and_dated "('d option, cell) statement_row frame"

record 'd processed =
  argument_after :: "'d argument"
  returned :: "('d, f64) txn frame"
  reported :: "diag list"

text \<open>
  Lines 36 to 66. The \<^verbatim>\<open>try\<close> block spans lines 40 to 63; every exception raised there is
  caught at line 64, reported, and an empty table is returned.
\<close>

definition process_transactions ::
  "(string \<Rightarrow> 'd::linorder option) \<Rightarrow> cell list frame \<Rightarrow> 'd processed" where
  "process_transactions to_datetime raw_df =
     (if df_empty raw_df
      then \<lparr>argument_after = Untouched raw_df, returned = new_frame, reported = []\<rparr>
      else (case set_columns raw_df of
              Inl e \<Rightarrow>
                \<lparr>argument_after = Untouched raw_df, returned = new_frame,
                 reported = [St_error (Error_al_procesar_las_transacciones e)]\<rparr>
            | Inr named \<Rightarrow>
                (let dated = coerce_Fecha to_datetime named
                 in case currency_columns (dropna_Fecha dated) of
                      Inl e \<Rightarrow>
                        \<lparr>argument_after = Renamed_and_dated dated, returned = new_frame,
                         reported = [St_error (Error_al_procesar_las_transacciones e)]\<rparr>
                    | Inr df \<Rightarrow>
                        \<lparr>argument_after = Renamed_and_dated dated,
                         returned = derive_and_sort df, reported = []\<rparr>)))"

section \<open>validate_balances\<close>

text \<open>
  \<^verbatim>\<open>np.cumsum\<close> on float64: the first element as it is, then each running total plus the
  next element, rounded at every step.
\<close>

fun np_cumsum_from :: "f64 \<Rightarrow> f64 list \<Rightarrow> f64 list" where
  "np_cumsum_from acc [] = []"
| "np_cumsum_from acc (x # xs) = fadd acc x # np_cumsum_from (fadd acc x) xs"

definition np_cumsum :: "f64 list \<Rightarrow> f64 list" where
  "np_cumsum xs = (case xs of [] \<Rightarrow> [] | x # xs' \<Rightarrow> x # np_cumsum_from x xs')"

text \<open>
  \<^verbatim>\<open>Series.cumsum()\<close> skips NaN: pandas puts 0 where the series has NaN, takes
  \<^verbatim>\<open>np.cumsum\<close>, and puts NaN back at those positions.
\<close>

definition cumsum :: "f64 list \<Rightarrow> f64 list" where
  "cumsum xs =
     map2 (\<lambda>x r. if x = NaN then NaN else r) xs
       (np_cumsum (map (\<lambda>x. if x = NaN then Finite 0 else x) xs))"

text \<open>\<^verbatim>\<open>s.iloc[0]\<close> raises \<^verbatim>\<open>IndexError\<close> on a series without elements.\<close>

definition iloc0 :: "'a list \<Rightarrow> py_error + 'a" where
  "iloc0 xs = (case xs of [] \<Rightarrow> Inl IndexError | x # _ \<Rightarrow> Inr x)"

text \<open>
  Line 71: \<^verbatim>\<open>calculated = df["Valor"].cumsum() + df["Saldo"].iloc[0] - df["Valor"].iloc[0]\<close>.
\<close>

definition calculated :: "('f, f64, 'z) statement_row_scheme list \<Rightarrow> py_error + f64 list" where
  "calculated rs =
     (case iloc0 (map Saldo rs) of
        Inl e \<Rightarrow> Inl e
      | Inr s0 \<Rightarrow>
          (case iloc0 (map Valor rs) of
             Inl e \<Rightarrow> Inl e
           | Inr v0 \<Rightarrow> Inr (map (\<lambda>c. fsub (fadd c s0) v0) (cumsum (map Valor rs)))))"

text \<open>
  Line 72: the mask \<^verbatim>\<open>abs(calculated - df["Saldo"]) > 1\<close>; a comparison with NaN is
  false.
\<close>

definition discrepancy_mask :: "f64 list \<Rightarrow> ('f, f64, 'z) statement_row_scheme list \<Rightarrow> bool list" where
  "discrepancy_mask calc rs = map2 (\<lambda>c s. fgt (fabs (fsub c s)) (Finite 1)) calc (map Saldo rs)"

definition validate_balances ::
  "('f, f64, 'z) statement_row_scheme frame \<Rightarrow> py_error + ('f, f64, 'z) statement_row_scheme frame"
  where
  "validate_balances df =
     (if df_empty df \<or> Name ''Valor'' \<notin> set (columns df) \<or> Name ''Saldo'' \<notin> set (columns df)
      then Inr new_frame
      else (case calculated (rows df) of
              Inl e \<Rightarrow> Inl e
            | Inr calc \<Rightarrow>
                Inr (df\<lparr>rows := boolean_index (rows df) (discrepancy_mask calc (rows df))\<rparr>)))"

section \<open>load_and_process_bank_statement\<close>

text \<open>
  The file system is a map from paths to contents. A call leaves behind the file system,
  the pair it returns and the messages it sent.
\<close>

record 'd loaded =
  files_after :: "string \<rightharpoonup> string"
  table :: "('d, f64) txn_str frame"
  extracto_mes :: string
  messages :: "diag list"

text \<open>
  Lines 88 to 91. The column Fecha is among the columns of a table that
  \<^verbatim>\<open>process_transactions\<close> returned with rows.
\<close>

definition month_label ::
  "'d environment \<Rightarrow> ('d, f64) txn frame \<Rightarrow> py_error + string" where
  "month_label env processed_data =
     (if Name ''Fecha'' \<in> set (columns processed_data) \<and> rows processed_data \<noteq> []
      then (case iloc0 (map Fecha (rows processed_data)) of
              Inl e \<Rightarrow> Inl e
            | Inr d \<Rightarrow> Inr (strftime env ''%B %Y'' d))
      else Inr ''Desconocido'')"

text \<open>Line 92: the new column FechaStr.\<close>

definition add_FechaStr ::
  "'d environment \<Rightarrow> ('d, f64) txn frame \<Rightarrow> ('d, f64) txn_str frame" where
  "add_FechaStr env processed_data =
     \<lparr>columns = columns processed_data @ [Name ''FechaStr''],
      rows = map (\<lambda>r. txn.extend r \<lparr>FechaStr = strftime env ''%Y-%m-%d'' (Fecha r)\<rparr>)
               (rows processed_data)\<rparr>"

text \<open>
  Lines 78 to 96, the body of the \<^verbatim>\<open>try\<close>. \<open>Inl\<close> is an exception that leaves the
  body, with the file system and the messages at that moment. The temporary file is made
  with \<^verbatim>\<open>delete=False\<close>, so closing it at the end of the \<^verbatim>\<open>with\<close> block keeps it; a
  failed write leaves a file without content here.
\<close>

definition statement_body ::
  "'d::linorder environment \<Rightarrow> (string \<rightharpoonup> string) \<Rightarrow> string \<Rightarrow>
     (py_error \<times> (string \<rightharpoonup> string) \<times> diag list) + 'd loaded" where
  "statement_body env files content =
     (case create_error env of
        Some e \<Rightarrow> Inl (e, files, [])
      | None \<Rightarrow>
          (case write_error env of
             Some e \<Rightarrow> Inl (e, files(tmp_name env \<mapsto> []), [])
           | None \<Rightarrow>
               (let written = files(tmp_name env \<mapsto> content)
                in case extract_bank_data env written (tmp_name env) of
                     Inl e \<Rightarrow> Inl (e, written, [])
                   | Inr (raw_data, ds) \<Rightarrow>
                       (let p = process_transactions (to_datetime_dayfirst env) raw_data;
                            processed_data = returned p;
                            unlinked = written(tmp_name env := None);
                            ds' = ds @ reported p
                        in if \<not> df_empty processed_data
                           then (case validate_balances processed_data of
                                   Inl e \<Rightarrow> Inl (e, unlinked, ds')
                                 | Inr discrepancies \<Rightarrow>
                                     (let ds'' = ds' @
                                        (if \<not> df_empty discrepancies
                                         then [St_warning (Discrepancias_en_saldos
                                                 (length (rows discrepancies)))]
                                         else [])
                                      in case month_label env processed_data of
                                           Inl e \<Rightarrow> Inl (e, unlinked, ds'')
                                         | Inr mes \<Rightarrow>
                                             Inr \<lparr>files_after = unlinked,
                                                  table = add_FechaStr env processed_data,
                                                  extracto_mes = mes,
                                                  messages = ds''\<rparr>))
                           else Inr \<lparr>files_after = unlinked, table = new_frame,
                                     extracto_mes = [],
                                     messages = ds' @
                                       [St_error No_se_pudieron_extraer_datos_validos]\<rparr>))))"

text \<open>Lines 75 to 101; \<open>None\<close> is no uploaded file.\<close>

definition load_and_process_bank_statement ::
  "'d::linorder environment \<Rightarrow> (string \<rightharpoonup> string) \<Rightarrow> string option \<Rightarrow> 'd loaded" where
  "load_and_process_bank_statement env files uploaded_file =
     (case uploaded_file of
        None \<Rightarrow> \<lparr>files_after = files, table = new_frame, extracto_mes = [], messages = []\<rparr>
      | Some content \<Rightarrow>
          (case statement_body env files content of
             Inl (e, files', ds) \<Rightarrow>
               \<lparr>files_after = files', table = new_frame, extracto_mes = [],
                messages = ds @ [St_error (Error_procesando_el_extracto e)]\<rparr>
           | Inr result \<Rightarrow> result))"

section \<open>cargar_datos_historicos\<close>

text \<open>
  A row of a snapshot file: the three columns the function reads (Fecha, Valor,
  Descripcion, each possibly missing) and everything else of the row, which the function
  only passes on. The column Fecha is text in the file and a timestamp or NaT after
  line 114.
\<close>

record ('f, 'v, 'x) snapshot_row =
  snap_Fecha :: "'f option"
  snap_Valor :: "'v option"
  snap_Descripcion :: cell
  snap_rest :: 'x

record ('d, 'v, 'x) historico =
  dir_exists :: bool
  listdir :: "string list"
  read_csv :: "string \<Rightarrow> py_error + (string, 'v, 'x) snapshot_row frame"
  to_datetime_default :: "string \<Rightarrow> 'd option"

text \<open>
  Line 114, \<^verbatim>\<open>pd.to_datetime(df["Fecha"])\<close>: a missing cell gives NaT, a text the library
  cannot read raises.
\<close>

fun to_datetime_column :: "(string \<Rightarrow> 'd option) \<Rightarrow> cell list \<Rightarrow> py_error + 'd option list" where
  "to_datetime_column f [] = Inr []"
| "to_datetime_column f (c # cs) =
     (case c of
        None \<Rightarrow> (case to_datetime_column f cs of Inl e \<Rightarrow> Inl e | Inr ds \<Rightarrow> Inr (None # ds))
      | Some s \<Rightarrow>
          (case f s of
             None \<Rightarrow> Inl (ParserError s)
           | Some d \<Rightarrow>
               (case to_datetime_column f cs of
                  Inl e \<Rightarrow> Inl e
                | Inr ds \<Rightarrow> Inr (Some d # ds))))"

definition snap_with_Fecha ::
  "'g option \<Rightarrow> ('f, 'v, 'x) snapshot_row \<Rightarrow> ('g, 'v, 'x) snapshot_row" where
  "snap_with_Fecha d r =
     \<lparr>snap_Fecha = d, snap_Valor = snap_Valor r, snap_Descripcion = snap_Descripcion r,
      snap_rest = snap_rest r\<rparr>"

text \<open>
  Lines 112 to 115, the body of the \<^verbatim>\<open>try\<close> in the loop. A frame without the column
  Fecha has no dates.
\<close>

definition load_snapshot ::
  "('d, 'v, 'x) historico \<Rightarrow> string \<Rightarrow> py_error + ('d, 'v, 'x) snapshot_row frame" where
  "load_snapshot env filename =
     (case read_csv env filename of
        Inl e \<Rightarrow> Inl e
      | Inr df \<Rightarrow>
          if Name ''Fecha'' \<in> set (columns df)
          then (case to_datetime_column (to_datetime_default env) (map snap_Fecha (rows df)) of
                  Inl e \<Rightarrow> Inl e
                | Inr ds \<Rightarrow>
                    Inr \<lparr>columns = columns df,
                         rows = map (\<lambda>(d, r). snap_with_Fecha d r) (zip ds (rows df))\<rparr>)
          else Inr \<lparr>columns = columns df, rows = map (snap_with_Fecha None) (rows df)\<rparr>)"

text \<open>Lines 109 to 117: the loop over the files.\<close>

fun load_snapshots ::
  "('d, 'v, 'x) historico \<Rightarrow> string list \<Rightarrow> ('d, 'v, 'x) snapshot_row frame list \<times> diag list"
  where
  "load_snapshots env [] = ([], [])"
| "load_snapshots env (filename # rest) =
     (case load_snapshots env rest of
        (dfs, ds) \<Rightarrow>
          (case load_snapshot env filename of
             Inl e \<Rightarrow> (dfs, St_warning (Error_al_cargar filename e) # ds)
           | Inr df \<Rightarrow> (df # dfs, ds)))"

text \<open>
  Line 119, \<^verbatim>\<open>pd.concat(all_dfs, ignore_index=True)\<close>, on snapshot rows: a row of a frame
  that lacks one of the three columns has a missing cell there.
\<close>

definition align_snapshot ::
  "label list \<Rightarrow> ('d, 'v, 'x) snapshot_row \<Rightarrow> ('d, 'v, 'x) snapshot_row" where
  "align_snapshot cols r =
     \<lparr>snap_Fecha = (if Name ''Fecha'' \<in> set cols then snap_Fecha r else None),
      snap_Valor = (if Name ''Valor'' \<in> set cols then snap_Valor r else None),
      snap_Descripcion = (if Name Descripcion_label \<in> set cols then snap_Descripcion r else None),
      snap_rest = snap_rest r\<rparr>"

definition concat_snapshots ::
  "('d, 'v, 'x) snapshot_row frame list \<Rightarrow> ('d, 'v, 'x) snapshot_row frame" where
  "concat_snapshots dfs =
     \<lparr>columns = union_labels (map columns dfs),
      rows = concat (map (\<lambda>df. map (align_snapshot (columns df)) (rows df)) dfs)\<rparr>"

text \<open>
  Line 120, \<^verbatim>\<open>drop_duplicates(subset=["Fecha", "Valor", "Descripcion"])\<close>: pandas raises
  \<^verbatim>\<open>KeyError\<close> when a label of the subset is no column; otherwise a row stays unless an
  earlier row has the same three cells (missing cells count as equal).
\<close>

definition subset_key :: "('d, 'v, 'x) snapshot_row \<Rightarrow> 'd option \<times> 'v option \<times> cell" where
  "subset_key r = (snap_Fecha r, snap_Valor r, snap_Descripcion r)"

fun keep_first :: "('r \<Rightarrow> 'k) \<Rightarrow> 'k list \<Rightarrow> 'r list \<Rightarrow> 'r list" where
  "keep_first key seen [] = []"
| "keep_first key seen (r # rs) =
     (if key r \<in> set seen then keep_first key seen rs
      else r # keep_first key (key r # seen) rs)"

definition drop_duplicates ::
  "('d, 'v, 'x) snapshot_row frame \<Rightarrow> py_error + ('d, 'v, 'x) snapshot_row frame" where
  "drop_duplicates df =
     (let missing = filter (\<lambda>l. l \<notin> set (columns df))
                      [Name ''Fecha'', Name ''Valor'', Name Descripcion_label]
      in if missing \<noteq> [] then Inl (KeyError missing)
         else Inr (df\<lparr>rows := keep_first subset_key [] (rows df)\<rparr>))"

text \<open>
  Line 121, \<^verbatim>\<open>sort_values("Fecha")\<close>: the dated rows in order of their timestamps (a stable
  sort here, see above), then the rows without date in the order they had.
\<close>

definition sort_values_Fecha ::
  "('d::linorder, 'v, 'x) snapshot_row list \<Rightarrow> ('d, 'v, 'x) snapshot_row list" where
  "sort_values_Fecha rs =
     sort_key (\<lambda>r. the (snap_Fecha r)) (filter (\<lambda>r. snap_Fecha r \<noteq> None) rs)
       @ filter (\<lambda>r. snap_Fecha r = None) rs"

text \<open>
  Lines 103 to 124. Only the loading of one file is inside a \<^verbatim>\<open>try\<close>; the
  \<^verbatim>\<open>KeyError\<close> of line 120 leaves the function.
\<close>

definition csv_files :: "('d, 'v, 'x) historico \<Rightarrow> string list" where
  "csv_files env =
     map (\<lambda>f. ''datos_bancarios/'' @ f) (filter (\<lambda>f. suffix ''.csv'' f) (listdir env))"

definition cargar_datos_historicos ::
  "('d::linorder, 'v, 'x) historico \<Rightarrow> py_error + (('d, 'v, 'x) snapshot_row frame \<times> diag list)"
  where
  "cargar_datos_historicos env =
     (if \<not> dir_exists env then Inr (new_frame, [])
      else if csv_files env = [] then Inr (new_frame, [])
      else (case load_snapshots env (csv_files env) of
              (all_dfs, ds) \<Rightarrow>
                if all_dfs \<noteq> []
                then (case drop_duplicates (concat_snapshots all_dfs) of
                        Inl e \<Rightarrow> Inl e
                      | Inr combined_df \<Rightarrow>
                          Inr (combined_df\<lparr>rows := sort_values_Fecha (rows combined_df)\<rparr>, ds))
                else Inr (new_frame, ds)))"

section \<open>Concrete data\<close>

text \<open>
  Calendar dates as year, month and day, in lexicographic order, and two readers for them:
  day/month/year with four-digit year, which is how \<^verbatim>\<open>dayfirst=True\<close> reads such a text,
  and year-month-day. They stand for the library on the concrete tables below; every general
  result takes the reader as a parameter.
\<close>

type_synonym date = "nat \<times> nat \<times> nat"

definition days_in_month :: "nat \<Rightarrow> nat \<Rightarrow> nat" where
  "days_in_month y m =
     (if m = 2 then (if (y mod 4 = 0 \<and> y mod 100 \<noteq> 0) \<or> y mod 400 = 0 then 29 else 28)
      else if m \<in> {4, 6, 9, 11} then 30 else 31)"

definition calendar_date :: "string \<Rightarrow> string \<Rightarrow> string \<Rightarrow> date option" where
  "calendar_date y m d =
     (if list_all is_digit (y @ m @ d) \<and> length y = 4 \<and> length m \<in> {1, 2} \<and> length d \<in> {1, 2}
         \<and> 1 \<le> digits_value m \<and> digits_value m \<le> 12 \<and> 1 \<le> digits_value d
         \<and> digits_value d \<le> days_in_month (digits_value y) (digits_value m)
      then Some (digits_value y, digits_value m, digits_value d)
      else None)"

definition dayfirst_date :: "string \<Rightarrow> date option" where
  "dayfirst_date s =
     (case split_on (CHR ''/'') s of [d, m, y] \<Rightarrow> calendar_date y m d | _ \<Rightarrow> None)"

definition iso_date :: "string \<Rightarrow> date option" where
  "iso_date s =
     (case split_on (CHR ''-'') s of [y, m, d] \<Rightarrow> calendar_date y m d | _ \<Rightarrow> None)"

text \<open>The two raw rows of the end-to-end scenario of the specification.\<close>

definition scenario_raw :: "cell list frame" where
  "scenario_raw =
     \<lparr>columns = [Pos 0, Pos 1, Pos 2, Pos 3, Pos 4, Pos 5],
      rows =
        [[Some ''01/01/2024'', Some ''ABONO X'', Some [], Some [], Some ''100,00'',
          Some ''1.000,00''],
         [Some ''02/01/2024'', Some (''COMISI'' @ [CHR 0xD3] @ ''N Y''), Some [], Some [],
          Some ''-50,00'', Some ''950,00'']]\<rparr>"

text \<open>The same rows with a dot for the decimals and a comma for the thousands.\<close>

definition scenario_dots :: "cell list frame" where
  "scenario_dots =
     \<lparr>columns = [Pos 0, Pos 1, Pos 2, Pos 3, Pos 4, Pos 5],
      rows =
        [[Some ''01/01/2024'', Some ''ABONO X'', Some [], Some [], Some ''100.00'',
          Some ''1,000.00''],
         [Some ''02/01/2024'', Some (''COMISI'' @ [CHR 0xD3] @ ''N Y''), Some [], Some [],
          Some ''-50.00'', Some ''950.00'']]\<rparr>"

text \<open>A table of five columns, and a table of six columns without any date.\<close>

definition five_columns :: "cell list frame" where
  "five_columns =
     \<lparr>columns = [Pos 0, Pos 1, Pos 2, Pos 3, Pos 4],
      rows = [[Some ''01/01/2024'', Some ''ABONO X'', Some [], Some ''100.00'', Some ''1,000.00'']]\<rparr>"

definition no_dates :: "cell list frame" where
  "no_dates =
     \<lparr>columns = [Pos 0, Pos 1, Pos 2, Pos 3, Pos 4, Pos 5],
      rows =
        [[Some ''SALDO ANTERIOR'', Some [], Some [], Some [], Some [], Some ''1,000.00''],
         [None, Some ''TOTAL'', Some [], Some [], Some [], Some []]]\<rparr>"

text \<open>A table with a date and an amount that is no number.\<close>

definition bad_amount :: "cell list frame" where
  "bad_amount =
     \<lparr>columns = [Pos 0, Pos 1, Pos 2, Pos 3, Pos 4, Pos 5],
      rows = [[Some ''01/01/2024'', Some ''ABONO X'', Some [], Some [], Some ''n/a'', Some ''950.00'']]\<rparr>"

text \<open>Rows and tables for \<^verbatim>\<open>validate_balances\<close>: a date, a value and a stated balance.\<close>

definition movement :: "nat \<Rightarrow> f64 \<Rightarrow> f64 \<Rightarrow> (nat, f64) txn" where
  "movement d v s =
     derive_row \<lparr>Fecha = d, Descripcion = None, Sucursal = None, Doc = None, Valor = v, Saldo = s\<rparr>"

definition ledger :: "(nat, f64) txn list \<Rightarrow> (nat, f64) txn frame" where
  "ledger rs = \<lparr>columns = statement_columns @ derived_columns, rows = rs\<rparr>"

text \<open>
  An environment where \<^verbatim>\<open>import camelot\<close> fails, one where the extractor finds the table of
  the scenario, and one where it fails while reading.
\<close>

definition env_found :: "date environment" where
  "env_found =
     \<lparr>tmp_name = ''/tmp/tmpab12cd.pdf'', create_error = None, write_error = None,
      import_error = None, read_pdf = (\<lambda>content. Inr [scenario_dots]),
      to_datetime_dayfirst = dayfirst_date, strftime = (\<lambda>fmt d. fmt)\<rparr>"

definition env_no_camelot :: "date environment" where
  "env_no_camelot = env_found\<lparr>import_error := Some ImportError\<rparr>"

definition env_unreadable :: "date environment" where
  "env_unreadable = env_found\<lparr>read_pdf := (\<lambda>content. Inl (LibraryError ''not a PDF''))\<rparr>"

text \<open>Two snapshot files that share one movement, beside a file that is no snapshot.\<close>

definition snapshot :: "string \<Rightarrow> rat \<Rightarrow> string \<Rightarrow> (string, rat, unit) snapshot_row" where
  "snapshot d v t =
     \<lparr>snap_Fecha = Some d, snap_Valor = Some v, snap_Descripcion = Some t, snap_rest = ()\<rparr>"

definition snapshot_columns :: "label list" where
  "snapshot_columns = [Name ''Fecha'', Name Descripcion_label, Name ''Valor'']"

definition two_snapshots :: "(date, rat, unit) historico" where
  "two_snapshots =
     \<lparr>dir_exists = True,
      listdir = [''enero.csv'', ''notas.txt'', ''febrero.csv''],
      read_csv = (\<lambda>path.
        if path = ''datos_bancarios/enero.csv''
        then Inr \<lparr>columns = snapshot_columns,
                  rows = [snapshot ''2024-01-05'' 100 ''ABONO X'',
                          snapshot ''2024-01-03'' (- 20) ''RETIRO'']\<rparr>
        else if path = ''datos_bancarios/febrero.csv''
        then Inr \<lparr>columns = snapshot_columns,
                  rows = [snapshot ''2024-01-05'' 100 ''ABONO X'',
                          snapshot ''2024-01-04'' 7 ''ABONO Z'']\<rparr>
        else Inl OSError),
      to_datetime_default = iso_date\<rparr>"

section \<open>Properties of the rounding\<close>

lemma floor_rat_numeral [simp]:
  "\<lfloor>numeral a / numeral b :: rat\<rfloor> = numeral a div numeral b"
  using floor_divide_of_int_eq [of "numeral a" "numeral b", where ?'a = rat] by simp

lemma ceiling_rat_numeral [simp]:
  "\<lceil>numeral a / numeral b :: rat\<rceil> = - (- numeral a div numeral b)"
  using floor_divide_of_int_eq [of "- numeral a" "numeral b", where ?'a = rat]
  by (simp add: ceiling_def)

lemma ilog2_bounds: "0 < n \<Longrightarrow> 2 ^ ilog2 n \<le> n \<and> n < 2 ^ Suc (ilog2 n)"
proof (induction n rule: ilog2.induct)
  case (1 n)
  show ?case
  proof (cases "n < 2")
    case True
    with "1.prems" have "n = 1" by simp
    then show ?thesis by (simp add: ilog2.simps)
  next
    case False
    then have pos: "0 < n div 2" by simp
    from "1.IH" [OF False pos]
    have lo: "2 ^ ilog2 (n div 2) \<le> n div 2" and hi: "n div 2 < 2 ^ Suc (ilog2 (n div 2))"
      by simp_all
    have e: "ilog2 n = Suc (ilog2 (n div 2))"
      using False by (subst ilog2.simps) simp
    from lo have "2 * 2 ^ ilog2 (n div 2) \<le> n" by simp
    moreover from hi have "n < 2 * 2 ^ Suc (ilog2 (n div 2))" by simp
    ultimately show ?thesis by (simp add: e)
  qed
qed

lemma pow2_of_nat_le: "2 ^ k \<le> (m::nat) \<Longrightarrow> (2::rat) ^ k \<le> of_nat m"
proof -
  assume "2 ^ k \<le> m"
  then have "(of_nat (2 ^ k) :: rat) \<le> of_nat m" by (rule of_nat_mono)
  then show ?thesis by simp
qed

lemma of_nat_Suc_le_pow2: "m + 1 \<le> 2 ^ k \<Longrightarrow> (of_nat m :: rat) + 1 \<le> 2 ^ k"
proof -
  assume "m + 1 \<le> 2 ^ k"
  then have "(of_nat (m + 1) :: rat) \<le> of_nat (2 ^ k)" by (rule of_nat_mono)
  then show ?thesis by simp
qed

lemma exponent_bounds_ge1:
  assumes "1 \<le> x"
  shows "2 powi exponent x \<le> x \<and> x < 2 powi (exponent x + 1)"
proof -
  define m where "m = nat \<lfloor>x\<rfloor>"
  from assms have m0: "0 < m" unfolding m_def by linarith
  from assms have m1: "of_nat m \<le> x" unfolding m_def by linarith
  from assms have m2: "x < of_nat m + 1" unfolding m_def by linarith
  from ilog2_bounds [OF m0]
  have lo: "2 ^ ilog2 m \<le> m" and hi: "m + 1 \<le> 2 ^ Suc (ilog2 m)" by simp_all
  have e: "exponent x = int (ilog2 m)"
    using assms by (simp add: exponent_def m_def)
  from pow2_of_nat_le [OF lo] m1 have a: "(2::rat) ^ ilog2 m \<le> x" by linarith
  from of_nat_Suc_le_pow2 [OF hi] m2 have b: "x < 2 ^ Suc (ilog2 m)" by linarith
  have p: "(2::rat) powi (int (ilog2 m) + 1) = 2 ^ Suc (ilog2 m)"
    using power_int_of_nat [of "2::rat" "Suc (ilog2 m)"] by (simp add: add.commute)
  from a b show ?thesis unfolding e p by simp
qed

lemma exponent_bounds_lt1:
  assumes "0 < x" and "x < 1"
  shows "2 powi exponent x \<le> x \<and> x < 2 powi (exponent x + 1)"
proof -
  define t where "t = \<lceil>1 / x\<rceil>"
  define m where "m = nat (t - 1)"
  from assms have inv: "1 < 1 / x" by simp
  then have t2: "2 \<le> t" unfolding t_def by linarith
  have tb1: "1 / x \<le> of_int t" unfolding t_def by linarith
  have tb2: "of_int t - 1 < 1 / x" unfolding t_def by linarith
  from t2 have m0: "0 < m" by (simp add: m_def)
  from t2 have "int m = t - 1" by (simp add: m_def)
  then have mt: "(of_nat m :: rat) = of_int t - 1"
    by (metis of_int_of_nat_eq of_int_diff of_int_1)
  from ilog2_bounds [OF m0]
  have lo: "2 ^ ilog2 m \<le> m" and hi: "m + 1 \<le> 2 ^ Suc (ilog2 m)" by simp_all
  have e: "exponent x = - int (Suc (ilog2 m))"
    using assms by (simp add: exponent_def m_def t_def)
  from pow2_of_nat_le [OF lo] mt tb2 have "(2::rat) ^ ilog2 m < 1 / x" by linarith
  then have "2 ^ ilog2 m * x < 1"
    using assms(1) by (simp only: pos_less_divide_eq)
  then have b: "x < 1 / 2 ^ ilog2 m"
    by (simp only: pos_less_divide_eq zero_less_power zero_less_numeral mult.commute)
  from of_nat_Suc_le_pow2 [OF hi] mt tb1 have "1 / x \<le> 2 ^ Suc (ilog2 m)" by linarith
  then have "1 \<le> 2 ^ Suc (ilog2 m) * x"
    using assms(1) by (simp only: pos_divide_le_eq)
  then have a: "1 / 2 ^ Suc (ilog2 m) \<le> x"
    by (simp only: pos_divide_le_eq zero_less_power zero_less_numeral mult.commute)
  have p1: "(2::rat) powi (- int (Suc (ilog2 m))) = 1 / 2 ^ Suc (ilog2 m)"
    unfolding power_int_minus_divide power_int_of_nat ..
  have "- int (Suc (ilog2 m)) + 1 = - int (ilog2 m)" by simp
  then have p2: "(2::rat) powi (- int (Suc (ilog2 m)) + 1) = 1 / 2 ^ ilog2 m"
    by (simp only: power_int_minus_divide power_int_of_nat)
  from a b show ?thesis unfolding e p1 p2 by (rule conjI)
qed

lemma exponent_bounds:
  assumes "0 < x"
  shows "2 powi exponent x \<le> x" and "x < 2 powi (exponent x + 1)"
  using exponent_bounds_ge1 [of x] exponent_bounds_lt1 [of x] assms
  by (cases "1 \<le> x"; simp)+

lemma exponent_le:
  assumes "0 < x" and "x < 2 powi (E + 1)"
  shows "exponent x \<le> E"
proof (rule ccontr)
  assume "\<not> exponent x \<le> E"
  then have "E + 1 \<le> exponent x" by simp
  then have "(2::rat) powi (E + 1) \<le> 2 powi exponent x"
    by (intro power_int_increasing) simp_all
  with exponent_bounds(1) [OF assms(1)] assms(2) show False by simp
qed

lemma exponent_ge:
  assumes "0 < x" and "2 powi E \<le> x"
  shows "E \<le> exponent x"
proof (rule ccontr)
  assume "\<not> E \<le> exponent x"
  then have "exponent x + 1 \<le> E" by simp
  then have "(2::rat) powi (exponent x + 1) \<le> 2 powi E"
    by (intro power_int_increasing) simp_all
  with exponent_bounds(2) [OF assms(1)] assms(2) show False by simp
qed

lemma p2_add: "(2::rat) powi (a + b) = 2 powi a * 2 powi b"
  by (rule power_int_add) simp

lemma p2_mono: "a \<le> b \<Longrightarrow> (2::rat) powi a \<le> 2 powi b"
  by (rule power_int_increasing) simp_all

lemma p2_half: "(2::rat) powi a = 2 * 2 powi (a - 1)"
proof -
  have "a = 1 + (a - 1)" by simp
  then have "(2::rat) powi a = 2 powi 1 * 2 powi (a - 1)" by (metis p2_add)
  then show ?thesis by simp
qed

lemma round_half_even_of_int [simp]: "round_half_even (of_int n) = n"
  by (simp add: round_half_even_def)

lemma round_half_even_error: "\<bar>of_int (round_half_even r) - r\<bar> \<le> 1 / 2"
proof -
  have "of_int \<lfloor>r\<rfloor> \<le> r" "r < of_int \<lfloor>r\<rfloor> + 1" by linarith+
  then show ?thesis
    by (auto simp: round_half_even_def Let_def)
qed

lemma round_half_even_nonneg: "0 \<le> r \<Longrightarrow> 0 \<le> round_half_even r"
proof -
  assume "0 \<le> r"
  then have "0 \<le> \<lfloor>r\<rfloor>" by simp
  then show ?thesis by (auto simp: round_half_even_def Let_def)
qed

lemma round_half_even_le: "r \<le> of_int N \<Longrightarrow> round_half_even r \<le> N"
proof (cases "r = of_int N")
  case True
  then show ?thesis by simp
next
  case False
  assume "r \<le> of_int N"
  with False have "r < of_int N" by simp
  then have "\<lfloor>r\<rfloor> < N" by (simp add: floor_less_iff)
  then show ?thesis by (auto simp: round_half_even_def Let_def)
qed

lemma quantum_pos: "0 < quantum x"
  by (simp add: quantum_def)

lemma quantum_minus [simp]: "quantum (- x) = quantum x"
  by (simp add: quantum_def)

lemma round64_minus: "round64 (- x) = fneg (round64 x)"
  by (cases "x = 0"; cases "0 < x") (auto simp: round64_def Let_def sgn_if)

lemma scaled_less:
  assumes "x \<noteq> 0"
  shows "\<bar>x\<bar> / quantum x < 2 powi 53"
proof -
  define e' where "e' = max (exponent \<bar>x\<bar>) (- 1022)"
  from assms have pos: "0 < \<bar>x\<bar>" by simp
  have q: "quantum x = 2 powi (e' - 52)" by (simp add: quantum_def e'_def)
  have "exponent \<bar>x\<bar> + 1 \<le> e' + 1" by (simp add: e'_def)
  then have "(2::rat) powi (exponent \<bar>x\<bar> + 1) \<le> 2 powi (e' + 1)" by (rule p2_mono)
  with exponent_bounds(2) [OF pos] have "\<bar>x\<bar> < 2 powi (e' + 1)" by linarith
  moreover have "e' + 1 = 53 + (e' - 52)" by simp
  ultimately have "\<bar>x\<bar> < 2 powi 53 * quantum x"
    unfolding q by (simp only: p2_add)
  then show ?thesis
    by (simp only: pos_divide_less_eq [OF quantum_pos])
qed

lemma round64_exact:
  assumes "0 < y" and "y / quantum y = of_int m" and "y < 2 powi 1024"
  shows "round64 y = Finite y"
proof -
  from assms(2) have "of_int m * quantum y = y"
    using quantum_pos [of y] by (simp add: field_simps)
  with assms(1,3) assms(2) show ?thesis
    by (simp add: round64_def Let_def abs_of_pos)
qed

lemma round64_dyadic:
  assumes n: "0 < n" "of_int n < (2::rat) powi 53" and k: "- 1074 \<le> k"
    and fin: "of_int n * 2 powi k < (2::rat) powi 1024"
  shows "round64 (of_int n * 2 powi k) = Finite (of_int n * 2 powi k)"
proof -
  define y :: rat where "y = of_int n * 2 powi k"
  define j where "j = max (exponent \<bar>y\<bar>) (- 1022) - 52"
  from n(1) have pos: "0 < y" by (simp add: y_def)
  have "y < 2 powi 53 * 2 powi k"
    unfolding y_def using n(2) by (intro mult_strict_right_mono) simp_all
  moreover have "(2::rat) powi 53 * 2 powi k = 2 powi (52 + k + 1)"
  proof -
    have "52 + k + 1 = 53 + k" by simp
    then show ?thesis by (simp only: p2_add)
  qed
  ultimately have "y < 2 powi (52 + k + 1)" by simp
  with pos have "exponent y \<le> 52 + k" by (rule exponent_le)
  with k pos have jk: "j \<le> k" by (simp add: j_def abs_of_pos)
  have q: "quantum y = 2 powi j" by (simp add: quantum_def j_def)
  have "k = (k - j) + j" by simp
  then have "(2::rat) powi k = 2 powi (k - j) * 2 powi j" by (metis p2_add)
  moreover have "(2::rat) powi (k - j) = of_int (2 ^ nat (k - j))"
    using jk by (simp add: power_int_nonneg_exp)
  ultimately have "y = of_int (n * 2 ^ nat (k - j)) * 2 powi j"
    by (simp add: y_def)
  then have "y / quantum y = of_int (n * 2 ^ nat (k - j))"
    unfolding q by simp
  from round64_exact [OF pos this] fin show ?thesis by (simp add: y_def)
qed

lemma round64_top:
  assumes k: "- 1074 \<le> k" and fin: "2 powi 53 * 2 powi k < (2::rat) powi 1024"
  shows "round64 (2 powi 53 * 2 powi k) = Finite (2 powi 53 * 2 powi k)"
proof -
  have "53 + k = 52 + (k + 1)" by simp
  then have e: "(2::rat) powi 53 * 2 powi k = 2 powi 52 * 2 powi (k + 1)"
    by (metis p2_add)
  have n: "(2::rat) powi 52 = of_int (2 ^ 52)"
    by (simp only: of_int_power of_int_numeral power_int_numeral)
  have lt: "of_int (2 ^ 52) < (2::rat) powi 53"
    unfolding n [symmetric] by (rule power_int_strict_increasing) simp_all
  have pos: "(0::int) < 2 ^ 52" by (rule zero_less_power) simp
  have k': "- 1074 \<le> k + 1" using k by simp
  have fin': "of_int (2 ^ 52) * 2 powi (k + 1) < (2::rat) powi 1024"
    using fin unfolding e n .
  from round64_dyadic [OF pos lt k' fin'] show ?thesis
    unfolding e n .
qed

lemma round64_idem:
  assumes "round64 x = Finite y"
  shows "round64 y = Finite y"
proof (cases "x = 0")
  case True
  with assms show ?thesis by (simp add: round64_def)
next
  case False
  define N where "N = round_half_even (\<bar>x\<bar> / quantum x)"
  define j where "j = max (exponent \<bar>x\<bar>) (- 1022) - 52"
  define z :: rat where "z = of_int N * 2 powi j"
  have q: "quantum x = 2 powi j" by (simp add: quantum_def j_def)
  have j: "- 1074 \<le> j" by (simp add: j_def)
  from assms False have fin: "z < 2 powi 1024"
    and y: "y = sgn x * z"
    by (auto simp: round64_def Let_def N_def q z_def split: if_splits)
  have N0: "0 \<le> N"
    unfolding N_def using quantum_pos [of x] by (intro round_half_even_nonneg) simp
  have p53: "(2::rat) powi 53 = of_int (2 ^ 53)"
    by (simp only: of_int_power of_int_numeral power_int_numeral)
  have "\<bar>x\<bar> / quantum x \<le> of_int (2 ^ 53)"
    using scaled_less [OF False] unfolding p53 by simp
  then have N1: "N \<le> 2 ^ 53" unfolding N_def by (rule round_half_even_le)
  have pos: "round64 z = Finite z"
  proof (cases "N = 0")
    case True
    then show ?thesis by (simp add: round64_def z_def)
  next
    case nz: False
    show ?thesis
    proof (cases "N = 2 ^ 53")
      case True
      then have "z = 2 powi 53 * 2 powi j" unfolding z_def p53 by simp
      with fin j show ?thesis by (simp only: round64_top)
    next
      case False
      with N0 N1 nz have a: "0 < N" and "N < 2 ^ 53" by simp_all
      then have b: "of_int N < (2::rat) powi 53" unfolding p53 by (simp only: of_int_less_iff)
      from round64_dyadic [OF a b j] fin show ?thesis unfolding z_def by simp
    qed
  qed
  show ?thesis
  proof (cases "0 < x")
    case True
    with y pos show ?thesis by simp
  next
    case neg: False
    with False y have "y = - z" by (simp add: sgn_if)
    with pos show ?thesis by (simp add: round64_minus)
  qed
qed

lemma round64_error:
  assumes x: "\<bar>x\<bar> < 2 powi (E + 1)" and E: "- 1022 \<le> E" "E \<le> 1022"
  shows "\<exists>y. round64 x = Finite y \<and> \<bar>y - x\<bar> \<le> 2 powi (E - 53)"
proof (cases "x = 0")
  case True
  then show ?thesis by (simp add: round64_def)
next
  case False
  define N where "N = round_half_even (\<bar>x\<bar> / quantum x)"
  define q where "q = quantum x"
  define z where "z = of_int N * q"
  define h :: rat where "h = 2 powi (E - 53)"
  have qpos: "0 < q" unfolding q_def by (rule quantum_pos)
  from False have pos: "0 < \<bar>x\<bar>" by simp
  have "exponent \<bar>x\<bar> \<le> E" using pos x by (rule exponent_le)
  with E have "max (exponent \<bar>x\<bar>) (- 1022) - 52 \<le> E - 52" by simp
  then have "q \<le> 2 powi (E - 52)"
    unfolding q_def quantum_def by (rule p2_mono)
  moreover have "(2::rat) powi (E - 52) = 2 * h"
    using p2_half [of "E - 52"] by (simp add: h_def)
  ultimately have qle: "q \<le> 2 * h" by simp
  from round_half_even_error [of "\<bar>x\<bar> / q"]
  have "\<bar>of_int N - \<bar>x\<bar> / q\<bar> \<le> 1 / 2"
    by (simp add: N_def q_def)
  then have "\<bar>of_int N - \<bar>x\<bar> / q\<bar> * q \<le> 1 / 2 * q"
    using qpos by (intro mult_right_mono) simp_all
  moreover have "\<bar>of_int N - \<bar>x\<bar> / q\<bar> * q = \<bar>z - \<bar>x\<bar>\<bar>"
  proof -
    have "\<bar>of_int N - \<bar>x\<bar> / q\<bar> * q = \<bar>(of_int N - \<bar>x\<bar> / q) * q\<bar>"
      using qpos by (simp add: abs_mult)
    also have "(of_int N - \<bar>x\<bar> / q) * q = z - \<bar>x\<bar>"
      using qpos by (simp add: left_diff_distrib z_def)
    finally show ?thesis .
  qed
  ultimately have err: "\<bar>z - \<bar>x\<bar>\<bar> \<le> h"
    using qle by linarith
  have "E - 53 \<le> E + 1" by simp
  then have "h \<le> 2 powi (E + 1)" unfolding h_def by (rule p2_mono)
  with err x have "z < 2 * 2 powi (E + 1)" by linarith
  moreover have "2 * (2::rat) powi (E + 1) = 2 powi (E + 2)"
  proof -
    have "E + 2 - 1 = E + 1" by simp
    with p2_half [of "E + 2"] show ?thesis by (simp only:)
  qed
  moreover have "(2::rat) powi (E + 2) \<le> 2 powi 1024"
    using E by (intro p2_mono) simp
  ultimately have fin: "z < 2 powi 1024" by linarith
  then have r: "round64 x = Finite (sgn x * z)"
    using False by (simp add: round64_def Let_def N_def z_def q_def)
  have "\<bar>sgn x * z - x\<bar> = \<bar>z - \<bar>x\<bar>\<bar>"
    using False by (cases "0 < x") (simp_all add: sgn_if)
  with err r show ?thesis by (simp add: h_def)
qed

lemma round64_is_f64: "is_f64 (round64 x)"
  by (cases "round64 x") (simp_all add: is_f64_def round64_idem)

lemma fadd_is_f64: "is_f64 (fadd x y)"
  by (cases x; cases y) (simp_all add: round64_is_f64, simp_all add: is_f64_def)

lemma fadd_commute: "fadd x y = fadd y x"
  by (cases x; cases y) (simp_all add: add.commute)

lemma fsub_self: "fsub x x = Finite 0 \<or> fsub x x = NaN"
  by (cases x) (simp_all add: fsub_def round64_def)

lemma fsub_zero: "is_f64 x \<Longrightarrow> fsub x (Finite 0) = x"
  by (cases x) (simp_all add: fsub_def is_f64_def)

lemma zero_fsub_fabs: "is_f64 x \<Longrightarrow> flt x (Finite 0) \<Longrightarrow> fsub (Finite 0) (fabs x) = x"
  by (cases x) (simp_all add: fsub_def is_f64_def)

lemma round64_of_int:
  assumes "\<bar>n\<bar> < 2 ^ 53"
  shows "round64 (of_int n) = Finite (of_int n)"
proof -
  have p53: "(2::rat) powi 53 = of_int (2 ^ 53)"
    by (simp only: of_int_power of_int_numeral power_int_numeral)
  have pos: "round64 (of_int m) = Finite (of_int m)" if m: "0 < m" "m < 2 ^ 53" for m
  proof -
    from m(2) have a: "of_int m < (2::rat) powi 53"
      unfolding p53 by (simp only: of_int_less_iff)
    have "(2::rat) powi 53 \<le> 2 powi 1024" by (rule p2_mono) simp
    with a have b: "of_int m * 2 powi 0 < (2::rat) powi 1024" by simp
    from round64_dyadic [OF m(1) a _ b] show ?thesis by simp
  qed
  consider "n = 0" | "0 < n" | "n < 0" by linarith
  then show ?thesis
  proof cases
    case 1
    then show ?thesis by (simp add: round64_def)
  next
    case 2
    with assms show ?thesis by (intro pos) simp_all
  next
    case 3
    with assms have "round64 (of_int (- n)) = Finite (of_int (- n))"
      by (intro pos) simp_all
    then have "fneg (round64 (of_int n)) = Finite (- of_int n)"
      by (simp add: round64_minus)
    then show ?thesis by (cases "round64 (of_int n)") simp_all
  qed
qed

lemma round64_numeral:
  "(numeral w :: int) < 2 ^ 53 \<Longrightarrow> round64 (numeral w) = Finite (numeral w)"
  "(numeral w :: int) < 2 ^ 53 \<Longrightarrow> round64 (- numeral w) = Finite (- numeral w)"
  "round64 0 = Finite 0"
  "round64 1 = Finite 1"
  using round64_of_int [of "numeral w"] round64_of_int [of "- numeral w"]
    round64_of_int [of 0] round64_of_int [of 1]
  by simp_all

section \<open>Properties of validate_balances\<close>

lemma first_difference_small:
  assumes a: "\<bar>a\<bar> \<le> 2 ^ 50" and b: "\<bar>b\<bar> \<le> 2 ^ 50"
  shows "\<exists>d. fsub (fsub (fadd (Finite a) (Finite b)) (Finite a)) (Finite b) = Finite d \<and> \<bar>d\<bar> < 1"
proof -
  have p50: "(2::rat) ^ 50 = 2 powi 50" by (simp only: power_int_numeral)
  have p51: "(2::rat) powi 51 = 2 * 2 powi 50" using p2_half [of 51] by simp
  have p52: "(2::rat) powi 52 = 2 * 2 powi 51" using p2_half [of 52] by simp
  have big: "(1::rat) \<le> 2 powi 50" by (rule one_le_power_int) simp_all
  have q2: "(2::rat) powi (- 2) = 1 / 4" by (simp add: power_int_minus_divide)
  have q3: "(2::rat) powi (- 3) = 1 / 8" by (simp add: power_int_minus_divide)
  have q54: "(2::rat) powi (- 54) \<le> 1 / 8"
  proof -
    have "(2::rat) powi (- 54) \<le> 2 powi (- 3)" by (rule p2_mono) simp
    then show ?thesis by (simp only: q3)
  qed
  from a b have "\<bar>a + b\<bar> < 2 powi (51 + 1)"
    unfolding p50 using p51 p52 big by (simp; linarith?)
  from round64_error [OF this]
  obtain t where t: "round64 (a + b) = Finite t" and te: "\<bar>t - (a + b)\<bar> \<le> 1 / 4"
    using q2 by auto
  from te b have "\<bar>t - a\<bar> < 2 powi (50 + 1)"
    unfolding p50 using p51 big by (simp; linarith?)
  from round64_error [OF this]
  obtain u where u: "round64 (t - a) = Finite u" and ue: "\<bar>u - (t - a)\<bar> \<le> 1 / 8"
    using q3 by auto
  from te ue have ub: "\<bar>u - b\<bar> \<le> 3 / 8" by linarith
  then have "\<bar>u - b\<bar> < 2 powi (- 1 + 1)" by simp
  from round64_error [OF this]
  obtain d where d: "round64 (u - b) = Finite d" and de: "\<bar>d - (u - b)\<bar> \<le> 2 powi (- 54)"
    by auto
  from de ub q54 have "\<bar>d\<bar> < 1" by linarith
  with t u d show ?thesis by (simp add: fsub_def)
qed

lemma length_np_cumsum_from: "length (np_cumsum_from a xs) = length xs"
  by (induction xs arbitrary: a) auto

lemma length_np_cumsum: "length (np_cumsum xs) = length xs"
  by (cases xs) (simp_all add: np_cumsum_def length_np_cumsum_from)

lemma length_cumsum: "length (cumsum xs) = length xs"
  by (simp add: cumsum_def length_np_cumsum)

lemma cumsum_Cons_0: "cumsum (x # xs) ! 0 = x"
  by (simp add: cumsum_def np_cumsum_def)

lemma nth_np_cumsum_from:
  "i < length xs \<Longrightarrow>
   np_cumsum_from a xs ! i = fadd (if i = 0 then a else np_cumsum_from a xs ! (i - 1)) (xs ! i)"
proof (induction xs arbitrary: a i)
  case Nil
  then show ?case by simp
next
  case (Cons x xs)
  show ?case
  proof (cases i)
    case 0
    then show ?thesis by simp
  next
    case (Suc k)
    with Cons.prems have "k < length xs" by simp
    from Cons.IH [OF this, of "fadd a x"] Suc show ?thesis
      by (cases k) simp_all
  qed
qed

text \<open>Without NaN the running total is the rounded sum of the one before and the value.\<close>

lemma cumsum_step:
  assumes "\<forall>x \<in> set xs. x \<noteq> NaN" and "i < length xs"
  shows "cumsum xs ! i = (if i = 0 then xs ! 0 else fadd (cumsum xs ! (i - 1)) (xs ! i))"
proof -
  from assms(1) have m: "map (\<lambda>x. if x = NaN then Finite 0 else x) xs = xs"
    by (induction xs) auto
  have z: "map2 (\<lambda>x r. if x = NaN then NaN else r) xs ys = ys"
    if "length ys = length xs" "\<forall>x \<in> set xs. x \<noteq> NaN" for ys and xs :: "f64 list"
    using that by (induction xs ys rule: list_induct2') auto
  from z [OF length_np_cumsum assms(1)] have c: "cumsum xs = np_cumsum xs"
    by (simp add: cumsum_def m)
  from assms(2) obtain x xs' where xs: "xs = x # xs'" by (cases xs) auto
  note c' = c [unfolded xs]
  show ?thesis
  proof (cases i)
    case 0
    then show ?thesis by (simp add: xs cumsum_Cons_0)
  next
    case (Suc k)
    with assms(2) xs have k: "k < length xs'" by simp
    from nth_np_cumsum_from [OF k, of x] Suc show ?thesis
      by (cases k) (simp_all add: c' xs np_cumsum_def)
  qed
qed

lemma boolean_index_nth:
  "length m = length rs \<Longrightarrow>
   boolean_index rs m = map (\<lambda>i. rs ! i) (filter (\<lambda>i. m ! i) [0..<length rs])"
proof (induction rs arbitrary: m rule: rev_induct)
  case Nil
  then show ?case by (simp add: boolean_index_def)
next
  case (snoc r rs)
  then obtain m' b where m: "m = m' @ [b]" "length m' = length rs"
    by (cases m rule: rev_cases) auto
  from snoc.IH [OF m(2)]
  have IH: "map fst (filter snd (zip rs m')) = map ((!) rs) (filter ((!) m') [0..<length rs])"
    by (simp add: boolean_index_def)
  have a: "filter (\<lambda>i. (m' @ [b]) ! i) [0..<length rs] = filter (\<lambda>i. m' ! i) [0..<length rs]"
    using m(2) by (intro filter_cong) (auto simp: nth_append)
  have b: "map ((!) (rs @ [r])) (filter ((!) m') [0..<length rs]) =
           map ((!) rs) (filter ((!) m') [0..<length rs])"
    by (intro map_cong) (auto simp: nth_append)
  show ?case using m IH a b by (auto simp: boolean_index_def nth_append)
qed

lemma calculated_Cons:
  "calculated (r # rs) =
     Inr (map (\<lambda>c. fsub (fadd c (Saldo r)) (Valor r)) (cumsum (map Valor (r # rs))))"
  by (simp add: calculated_def iloc0_def)

lemma validate_balances_rows:
  assumes "\<not> df_empty df" "Name ''Valor'' \<in> set (columns df)" "Name ''Saldo'' \<in> set (columns df)"
  shows "validate_balances df =
           Inr (df\<lparr>rows := map (\<lambda>i. rows df ! i)
              (filter (\<lambda>i. fgt (fabs (fsub
                    (fsub (fadd (cumsum (map Valor (rows df)) ! i) (Saldo (rows df ! 0)))
                       (Valor (rows df ! 0)))
                    (Saldo (rows df ! i)))) (Finite 1))
                 [0..<length (rows df)])\<rparr>)"
proof -
  let ?rs = "rows df"
  let ?exceeds = "\<lambda>i. fgt (fabs (fsub
                    (fsub (fadd (cumsum (map Valor ?rs) ! i) (Saldo (?rs ! 0))) (Valor (?rs ! 0)))
                    (Saldo (?rs ! i)))) (Finite 1)"
  from assms(1) obtain r rs' where rs: "?rs = r # rs'"
    by (cases ?rs) (auto simp: df_empty_def)
  define calc where "calc = map (\<lambda>c. fsub (fadd c (Saldo r)) (Valor r)) (cumsum (map Valor ?rs))"
  have c: "calculated ?rs = Inr calc"
    unfolding calc_def rs calculated_Cons ..
  have len: "length calc = length ?rs"
    by (simp add: calc_def length_cumsum)
  have r0: "?rs ! 0 = r" by (simp add: rs)
  have nth: "calc ! i = fsub (fadd (cumsum (map Valor ?rs) ! i) (Saldo (?rs ! 0))) (Valor (?rs ! 0))"
    if "i < length ?rs" for i
    using that by (simp add: calc_def length_cumsum r0)
  have lm: "length (discrepancy_mask calc ?rs) = length ?rs"
    by (simp add: discrepancy_mask_def len)
  have "discrepancy_mask calc ?rs ! i \<longleftrightarrow> ?exceeds i" if "i < length ?rs" for i
    using that nth [OF that] len by (simp add: discrepancy_mask_def)
  then have "filter (\<lambda>i. discrepancy_mask calc ?rs ! i) [0..<length ?rs] =
             filter ?exceeds [0..<length ?rs]"
    by (intro filter_cong) auto
  then have "boolean_index ?rs (discrepancy_mask calc ?rs) =
             map (\<lambda>i. ?rs ! i) (filter ?exceeds [0..<length ?rs])"
    using boolean_index_nth [OF lm] by simp
  with assms c show ?thesis by (simp add: validate_balances_def)
qed

lemma filter_eq_upt: "k < n \<Longrightarrow> filter (\<lambda>i. i = k) [0..<n] = [k]"
proof (induction n)
  case 0
  then show ?case by simp
next
  case (Suc n)
  show ?case
  proof (cases "k = n")
    case True
    have "filter (\<lambda>i. i = n) [0..<n] = []" by (simp add: filter_empty_conv)
    with True show ?thesis by simp
  next
    case False
    with Suc show ?thesis by simp
  qed
qed

lemma not_exceeds_self: "\<not> fgt (fabs (fsub x x)) (Finite 1)"
  using fsub_self [of x] by (auto simp: fgt_def)

lemma validate_consistent:
  assumes "\<not> df_empty df" "Name ''Valor'' \<in> set (columns df)" "Name ''Saldo'' \<in> set (columns df)"
    and "\<forall>i<length (rows df). Saldo (rows df ! i) =
            fsub (fadd (Saldo (rows df ! 0)) (cumsum (map Valor (rows df)) ! i))
              (Valor (rows df ! 0))"
  shows "validate_balances df = Inr (df\<lparr>rows := []\<rparr>)"
proof -
  have "\<not> fgt (fabs (fsub
          (fsub (fadd (cumsum (map Valor (rows df)) ! i) (Saldo (rows df ! 0)))
             (Valor (rows df ! 0)))
          (Saldo (rows df ! i)))) (Finite 1)" if "i < length (rows df)" for i
  proof -
    from assms(4) that
    have "Saldo (rows df ! i) =
            fsub (fadd (cumsum (map Valor (rows df)) ! i) (Saldo (rows df ! 0)))
              (Valor (rows df ! 0))"
      by (simp add: fadd_commute)
    then show ?thesis using not_exceeds_self [of "Saldo (rows df ! i)"] by simp
  qed
  then have "filter (\<lambda>i. fgt (fabs (fsub
          (fsub (fadd (cumsum (map Valor (rows df)) ! i) (Saldo (rows df ! 0)))
             (Valor (rows df ! 0)))
          (Saldo (rows df ! i)))) (Finite 1)) [0..<length (rows df)] = []"
    by (simp add: filter_empty_conv)
  with validate_balances_rows [OF assms(1-3)] show ?thesis by simp
qed

lemma validate_perturbed:
  assumes ne: "\<not> df_empty df"
    and v: "Name ''Valor'' \<in> set (columns df)" and s: "Name ''Saldo'' \<in> set (columns df)"
    and cons: "\<forall>i<length (rows df). Saldo (rows df ! i) =
            fsub (fadd (Saldo (rows df ! 0)) (cumsum (map Valor (rows df)) ! i))
              (Valor (rows df ! 0))"
    and k: "1 \<le> k" "k < length (rows df)"
    and d: "fgt (fabs (fsub (Saldo (rows df ! k)) b')) (Finite 1)"
  shows "validate_balances (df\<lparr>rows := (rows df)[k := (rows df ! k)\<lparr>Saldo := b'\<rparr>]\<rparr>) =
         Inr (df\<lparr>rows := [(rows df ! k)\<lparr>Saldo := b'\<rparr>]\<rparr>)"
proof -
  let ?rs = "rows df"
  let ?r = "(?rs ! k)\<lparr>Saldo := b'\<rparr>"
  let ?rs' = "?rs[k := ?r]"
  let ?df' = "df\<lparr>rows := ?rs'\<rparr>"
  let ?calc = "\<lambda>i. fsub (fadd (cumsum (map Valor ?rs) ! i) (Saldo (?rs ! 0))) (Valor (?rs ! 0))"
  let ?exceeds = "\<lambda>i. fgt (fabs (fsub
        (fsub (fadd (cumsum (map Valor ?rs') ! i) (Saldo (?rs' ! 0))) (Valor (?rs' ! 0)))
        (Saldo (?rs' ! i)))) (Finite 1)"
  have ne': "\<not> df_empty ?df'" using ne by (simp add: df_empty_def)
  have "map Valor ?rs' = (map Valor ?rs)[k := Valor ?r]" by (simp add: map_update)
  also have "\<dots> = map Valor ?rs" using k(2) by (simp add: list_update_same_conv)
  finally have val: "map Valor ?rs' = map Valor ?rs" .
  have r0: "?rs' ! 0 = ?rs ! 0" using k by simp
  have sal: "Saldo (?rs' ! i) = (if i = k then b' else Saldo (?rs ! i))"
    if "i < length ?rs" for i
    using that by (simp add: nth_list_update)
  have cond: "?exceeds i \<longleftrightarrow> i = k" if "i < length ?rs" for i
  proof -
    from cons that have c: "?calc i = Saldo (?rs ! i)"
      by (simp add: fadd_commute)
    show ?thesis
    proof (cases "i = k")
      case True
      with d c show ?thesis unfolding val r0 sal [OF that] by simp
    next
      case False
      with c not_exceeds_self [of "Saldo (?rs ! i)"] show ?thesis
        unfolding val r0 sal [OF that] by simp
    qed
  qed
  have "filter ?exceeds [0..<length ?rs] = filter (\<lambda>i. i = k) [0..<length ?rs]"
    by (rule filter_cong) (auto simp: cond)
  also have "\<dots> = [k]" using k by (simp add: filter_eq_upt)
  finally have f: "filter ?exceeds [0..<length (rows ?df')] = [k]" by simp
  have "validate_balances ?df' = Inr (?df'\<lparr>rows := map (\<lambda>i. rows ?df' ! i) [k]\<rparr>)"
    using validate_balances_rows [of ?df'] ne' v s f by simp
  then show ?thesis using k by simp
qed

lemma columns_ledger:
  "Name ''Valor'' \<in> set (columns (ledger rs))" "Name ''Saldo'' \<in> set (columns (ledger rs))"
  by (simp_all add: ledger_def statement_columns_def derived_columns_def)

lemma validate_ledger:
  "validate_balances (ledger (r # rs)) =
     Inr (ledger (boolean_index (r # rs)
       (discrepancy_mask
          (map (\<lambda>c. fsub (fadd c (Saldo r)) (Valor r)) (cumsum (map Valor (r # rs))))
          (r # rs))))"
  by (simp add: validate_balances_def calculated_Cons df_empty_def ledger_def
        statement_columns_def derived_columns_def)

lemma movement_sel [simp]:
  "Valor (movement d v s) = v" "Saldo (movement d v s) = s" "Fecha (movement d v s) = d"
  by (simp_all add: movement_def derive_row_def)

lemmas float_eval = cumsum_def np_cumsum_def discrepancy_mask_def boolean_index_def fsub_def
  fgt_def round64_numeral

lemmas round64_eval = round64_def quantum_def exponent_def round_half_even_def ilog2.simps
  power_int_minus

text \<open>
  Two amounts of two decimals, as float64, and a table on which exact decimal arithmetic
  and float64 differ: the stated balances are 4537.90 and 4560.77, the values 37.16 and
  21.87. In decimals the second recomputed balance is 4559.77, exactly 1 below the stated
  one; in float64 the difference is \<open>1 + 2 ^ (- 40)\<close>, so the second row is returned.
\<close>

lemma two_decimal_amounts:
  "round64 (3716 / 100) = Finite (1307451266820997 / 2 ^ 45)"
  "round64 (2187 / 100) = Finite (6155857740662047 / 2 ^ 48)"
  "round64 (453790 / 100) = Finite (2494736907842355 / 2 ^ 39)"
  "round64 (456077 / 100) = Finite (1253654911652987 / 2 ^ 38)"
  by (simp_all add: round64_eval)

lemma rounding_at_the_threshold:
  "validate_balances
     (ledger [movement 1 (Finite (1307451266820997 / 2 ^ 45)) (Finite (2494736907842355 / 2 ^ 39)),
              movement 2 (Finite (6155857740662047 / 2 ^ 48)) (Finite (1253654911652987 / 2 ^ 38))]) =
   Inr (ledger
     [movement 2 (Finite (6155857740662047 / 2 ^ 48)) (Finite (1253654911652987 / 2 ^ 38))])"
  by (simp add: validate_ledger cumsum_def np_cumsum_def discrepancy_mask_def boolean_index_def
      fsub_def fgt_def round64_eval)

text \<open>
  Claim C1, as amended. For a table with rows and with the columns Valor and Saldo,
  \<^verbatim>\<open>validate_balances\<close> returns exactly the rows at the positions \<open>i\<close> where the
  recomputed balance, which is the running total of the values up to \<open>i\<close> plus the first
  balance minus the first value, each step rounded to float64, differs from the stated
  balance at \<open>i\<close> by more than 1 in float64; without NaN the running total is the first
  value, then at each position the rounded sum of the total before and the value. If every
  stated balance equals the recomputed one, no row is returned; and replacing the stated
  balance at one position other than the first by a value whose float64 difference from it
  exceeds 1 makes the row at that position the one row returned.
\<close>

theorem validate_balances_discrepancies:
  assumes "\<not> df_empty df"
    and "Name ''Valor'' \<in> set (columns df)" and "Name ''Saldo'' \<in> set (columns df)"
  shows "validate_balances df =
           Inr (df\<lparr>rows := map (\<lambda>i. rows df ! i)
              (filter (\<lambda>i. fgt (fabs (fsub
                    (fsub (fadd (cumsum (map Valor (rows df)) ! i) (Saldo (rows df ! 0)))
                       (Valor (rows df ! 0)))
                    (Saldo (rows df ! i)))) (Finite 1))
                 [0..<length (rows df)])\<rparr>)
         \<and> ((\<forall>x \<in> set (map Valor (rows df)). x \<noteq> NaN) \<longrightarrow>
              (\<forall>i<length (rows df). cumsum (map Valor (rows df)) ! i =
                 (if i = 0 then Valor (rows df ! 0)
                  else fadd (cumsum (map Valor (rows df)) ! (i - 1)) (Valor (rows df ! i)))))
         \<and> ((\<forall>i<length (rows df). Saldo (rows df ! i) =
                fsub (fadd (Saldo (rows df ! 0)) (cumsum (map Valor (rows df)) ! i))
                  (Valor (rows df ! 0))) \<longrightarrow>
              validate_balances df = Inr (df\<lparr>rows := []\<rparr>) \<and>
              (\<forall>k b'. 1 \<le> k \<and> k < length (rows df) \<and>
                     fgt (fabs (fsub (Saldo (rows df ! k)) b')) (Finite 1) \<longrightarrow>
                 validate_balances (df\<lparr>rows := (rows df)[k := (rows df ! k)\<lparr>Saldo := b'\<rparr>]\<rparr>) =
                 Inr (df\<lparr>rows := [(rows df ! k)\<lparr>Saldo := b'\<rparr>]\<rparr>)))"
proof (intro conjI impI allI)
  show "validate_balances df =
           Inr (df\<lparr>rows := map (\<lambda>i. rows df ! i)
              (filter (\<lambda>i. fgt (fabs (fsub
                    (fsub (fadd (cumsum (map Valor (rows df)) ! i) (Saldo (rows df ! 0)))
                       (Valor (rows df ! 0)))
                    (Saldo (rows df ! i)))) (Finite 1))
                 [0..<length (rows df)])\<rparr>)"
    by (rule validate_balances_rows [OF assms])
next
  fix i
  assume n: "\<forall>x \<in> set (map Valor (rows df)). x \<noteq> NaN" and i: "i < length (rows df)"
  from i have "i < length (map Valor (rows df))" by simp
  from cumsum_step [OF n this] i
  show "cumsum (map Valor (rows df)) ! i =
          (if i = 0 then Valor (rows df ! 0)
           else fadd (cumsum (map Valor (rows df)) ! (i - 1)) (Valor (rows df ! i)))"
    by (cases "i = 0") simp_all
next
  assume c: "\<forall>i<length (rows df). Saldo (rows df ! i) =
                fsub (fadd (Saldo (rows df ! 0)) (cumsum (map Valor (rows df)) ! i))
                  (Valor (rows df ! 0))"
  show "validate_balances df = Inr (df\<lparr>rows := []\<rparr>)"
    by (rule validate_consistent [OF assms c])
  fix k b'
  assume "1 \<le> k \<and> k < length (rows df) \<and> fgt (fabs (fsub (Saldo (rows df ! k)) b')) (Finite 1)"
  then show "validate_balances (df\<lparr>rows := (rows df)[k := (rows df ! k)\<lparr>Saldo := b'\<rparr>]\<rparr>) =
             Inr (df\<lparr>rows := [(rows df ! k)\<lparr>Saldo := b'\<rparr>]\<rparr>)"
    using validate_perturbed [OF assms c] by blast
qed

lemma three_movements_consistent:
  "\<forall>i<length (rows (ledger [movement 1 (Finite 10) (Finite 100), movement 2 (Finite 5) (Finite 105),
                             movement 3 (Finite (- 20)) (Finite 85)])).
     Saldo (rows (ledger [movement 1 (Finite 10) (Finite 100), movement 2 (Finite 5) (Finite 105),
                          movement 3 (Finite (- 20)) (Finite 85)]) ! i) =
       fsub (fadd (Saldo (rows (ledger [movement 1 (Finite 10) (Finite 100),
                     movement 2 (Finite 5) (Finite 105), movement 3 (Finite (- 20)) (Finite 85)]) ! 0))
               (cumsum (map Valor (rows (ledger [movement 1 (Finite 10) (Finite 100),
                     movement 2 (Finite 5) (Finite 105), movement 3 (Finite (- 20)) (Finite 85)]))) ! i))
         (Valor (rows (ledger [movement 1 (Finite 10) (Finite 100), movement 2 (Finite 5) (Finite 105),
                     movement 3 (Finite (- 20)) (Finite 85)]) ! 0))"
  by (simp add: ledger_def All_less_Suc numeral_3_eq_3 float_eval)

theorem validate_balances_discrepancies_witness:
  "validate_balances (ledger [movement 1 (Finite 10) (Finite 100), movement 2 (Finite 5) (Finite 105),
       movement 3 (Finite (- 20)) (Finite 85)]) = Inr (ledger [])
   \<and> fgt (fabs (fsub (Finite 105) (Finite 108))) (Finite 1)
   \<and> validate_balances
       (ledger [movement 1 (Finite 10) (Finite 100),
                (movement 2 (Finite 5) (Finite 105))\<lparr>Saldo := Finite 108\<rparr>,
                movement 3 (Finite (- 20)) (Finite 85)]) =
     Inr (ledger [(movement 2 (Finite 5) (Finite 105))\<lparr>Saldo := Finite 108\<rparr>])"
proof -
  let ?df = "ledger [movement 1 (Finite 10) (Finite 100), movement 2 (Finite 5) (Finite 105),
       movement 3 (Finite (- 20)) (Finite 85)]"
  have ne: "\<not> df_empty ?df"
    by (simp add: df_empty_def ledger_def statement_columns_def)
  have g: "fgt (fabs (fsub (Finite 105) (Finite 108))) (Finite 1)"
    by (simp add: float_eval)
  then have k: "(1::nat) \<le> 1 \<and> 1 < length (rows ?df) \<and>
      fgt (fabs (fsub (Saldo (rows ?df ! 1)) (Finite 108))) (Finite 1)"
    by (simp add: ledger_def)
  note t = validate_balances_discrepancies [OF ne columns_ledger,
      THEN conjunct2, THEN conjunct2, THEN mp, OF three_movements_consistent]
  from t [THEN conjunct1]
  have a: "validate_balances ?df = Inr (?df\<lparr>rows := []\<rparr>)" .
  from t [THEN conjunct2, rule_format, OF k]
  have "validate_balances
         (?df\<lparr>rows := (rows ?df)[1 := (rows ?df ! 1)\<lparr>Saldo := Finite 108\<rparr>]\<rparr>) =
       Inr (?df\<lparr>rows := [(rows ?df ! 1)\<lparr>Saldo := Finite 108\<rparr>]\<rparr>)" .
  with a g show ?thesis
    by (simp add: ledger_def)
qed

text \<open>
  Claim C1 as stated fails at the first position: in a table of two rows whose balances
  agree with the values, replacing the first stated balance 100 by 102 leaves the first
  row out of the result; the second row is returned instead.
\<close>

theorem validate_balances_first_balance_counterexample:
  "validate_balances (ledger [movement 1 (Finite 10) (Finite 100), movement 2 (Finite 5) (Finite 105)]) =
     Inr (ledger [])
   \<and> fgt (fabs (fsub (Finite 100) (Finite 102))) (Finite 1)
   \<and> validate_balances
       (ledger [(movement 1 (Finite 10) (Finite 100))\<lparr>Saldo := Finite 102\<rparr>,
                movement 2 (Finite 5) (Finite 105)]) =
       Inr (ledger [movement 2 (Finite 5) (Finite 105)])
   \<and> (movement 1 (Finite 10) (Finite 100))\<lparr>Saldo := Finite 102\<rparr>
       \<notin> set [movement 2 (Finite 5) (Finite 105)]"
  by (simp add: validate_ledger float_eval) (simp add: movement_def derive_row_def)

text \<open>
  Claim C10, as stated, fails: with the first value \<open>10 ^ 17\<close> and the first balance 3,
  float64 gives \<open>(10 ^ 17 + 3) - 10 ^ 17 = 0\<close>, the difference from the stated balance is
  3, and the table returned holds the first row.
\<close>

lemma round64_large: "round64 (10 ^ 17 + 3) = Finite (10 ^ 17)"
  by (simp add: round64_eval)

theorem first_row_included_counterexample:
  "validate_balances (ledger [movement 1 (Finite (10 ^ 17)) (Finite 3)]) =
     Inr (ledger [movement 1 (Finite (10 ^ 17)) (Finite 3)])"
  using round64_large
  by (simp add: validate_ledger cumsum_def np_cumsum_def discrepancy_mask_def boolean_index_def
      fsub_def fgt_def round64_numeral)

text \<open>
  Claim C10, as amended. For a table with rows and with the columns Valor and Saldo whose
  first value and first balance are finite and at most \<open>2 ^ 50\<close> in magnitude, the
  recomputed balance at the first position differs from the first stated balance by less
  than 1 in float64 (not always by zero), so the mask is false there and the rows returned
  are rows at later positions.
\<close>

theorem validate_balances_skips_first_row:
  assumes "\<not> df_empty df"
    and "Name ''Valor'' \<in> set (columns df)" and "Name ''Saldo'' \<in> set (columns df)"
    and a: "Valor (rows df ! 0) = Finite a" "\<bar>a\<bar> \<le> 2 ^ 50"
    and b: "Saldo (rows df ! 0) = Finite b" "\<bar>b\<bar> \<le> 2 ^ 50"
  shows "\<exists>calc d. calculated (rows df) = Inr calc \<and>
            fsub (calc ! 0) (Saldo (rows df ! 0)) = Finite d \<and> \<bar>d\<bar> < 1 \<and>
            \<not> discrepancy_mask calc (rows df) ! 0 \<and>
            validate_balances df =
              Inr (df\<lparr>rows := map (\<lambda>i. rows df ! i)
                     (filter (\<lambda>i. discrepancy_mask calc (rows df) ! i) [1..<length (rows df)])\<rparr>)"
proof -
  let ?rs = "rows df"
  from assms(1) have ne: "?rs \<noteq> []" by (simp add: df_empty_def)
  then obtain r rs' where rs: "?rs = r # rs'" by (cases ?rs) auto
  define calc where "calc = map (\<lambda>c. fsub (fadd c (Saldo r)) (Valor r)) (cumsum (map Valor ?rs))"
  have c: "calculated ?rs = Inr calc" unfolding calc_def rs calculated_Cons ..
  have len: "length calc = length ?rs"
    by (simp add: calc_def length_cumsum)
  from a(1) b(1) have r: "Valor r = Finite a" "Saldo r = Finite b" by (simp_all add: rs)
  have c0: "calc ! 0 = fsub (fadd (Finite a) (Finite b)) (Finite a)"
    using cumsum_Cons_0 [of "Valor r" "map Valor rs'"]
    by (simp add: calc_def rs length_cumsum r del: fadd.simps)
  from first_difference_small [OF a(2) b(2)]
  obtain d where d: "fsub (calc ! 0) (Finite b) = Finite d" and d1: "\<bar>d\<bar> < 1"
    unfolding c0 by blast
  have lm: "length (discrepancy_mask calc ?rs) = length ?rs"
    by (simp add: discrepancy_mask_def len)
  have "discrepancy_mask calc ?rs ! 0 = fgt (fabs (fsub (calc ! 0) (Saldo r))) (Finite 1)"
    using len ne by (simp add: discrepancy_mask_def rs)
  with d d1 have m0: "\<not> discrepancy_mask calc ?rs ! 0"
    by (simp add: r fgt_def)
  have "[0..<length ?rs] = 0 # [1..<length ?rs]"
    using ne by (simp add: upt_conv_Cons)
  then have "filter (\<lambda>i. discrepancy_mask calc ?rs ! i) [0..<length ?rs] =
      filter (\<lambda>i. discrepancy_mask calc ?rs ! i) [1..<length ?rs]"
    using m0 by simp
  then have "boolean_index ?rs (discrepancy_mask calc ?rs) =
      map (\<lambda>i. ?rs ! i) (filter (\<lambda>i. discrepancy_mask calc ?rs ! i) [1..<length ?rs])"
    using boolean_index_nth [OF lm] by simp
  with assms(1-3) c d d1 m0 b(1) show ?thesis
    by (auto simp: validate_balances_def)
qed

theorem validate_balances_skips_first_row_witness:
  "\<not> df_empty (ledger [movement 1 (Finite 10) (Finite 100), movement 2 (Finite 5) (Finite 500)])
   \<and> \<bar>10 :: rat\<bar> \<le> 2 ^ 50 \<and> \<bar>100 :: rat\<bar> \<le> 2 ^ 50
   \<and> validate_balances (ledger [movement 1 (Finite 10) (Finite 100), movement 2 (Finite 5) (Finite 500)]) =
       Inr (ledger [movement 2 (Finite 5) (Finite 500)])"
proof -
  let ?rs = "[movement 1 (Finite 10) (Finite 100), movement 2 (Finite 5) (Finite 500)]"
  have ne: "\<not> df_empty (ledger ?rs)"
    by (simp add: df_empty_def ledger_def statement_columns_def)
  have rs: "rows (ledger ?rs) = ?rs" by (simp add: ledger_def)
  have a: "Valor (rows (ledger ?rs) ! 0) = Finite 10" "\<bar>10 :: rat\<bar> \<le> 2 ^ 50"
    and b: "Saldo (rows (ledger ?rs) ! 0) = Finite 100" "\<bar>100 :: rat\<bar> \<le> 2 ^ 50"
    by (simp_all add: ledger_def)
  from validate_balances_skips_first_row [OF ne columns_ledger a b]
  obtain calc where c: "calculated ?rs = Inr calc"
    and v: "validate_balances (ledger ?rs) =
              Inr ((ledger ?rs)\<lparr>rows := map (\<lambda>i. ?rs ! i)
                     (filter (\<lambda>i. discrepancy_mask calc ?rs ! i) [1..<length ?rs])\<rparr>)"
    unfolding rs by blast
  have "calculated ?rs = Inr [Finite 100, Finite 105]"
    by (simp add: calculated_Cons float_eval)
  with c have "calc = [Finite 100, Finite 105]" by simp
  with v ne a(2) b(2) show ?thesis
    by (simp add: ledger_def float_eval)
qed

section \<open>Properties of the categories\<close>

lemma alternatives_patterns:
  "alternatives (snd (patterns ! 0)) =
     [''PAGO INTERBANC'', ''ABONO'', ''DEP'' @ [CHR 0xD3] @ ''SITO'', ''N'' @ [CHR 0xD3] @ ''MINA'',
      ''TRANSFERENCIA A FAVOR'']"
  "alternatives (snd (patterns ! 1)) =
     [''IMPUESTO'', ''COMISI'' @ [CHR 0xD3] @ ''N'', ''RETIRO'', ''PAGO A PROVE'', ''TRANSFERENCIA'']"
  "alternatives (snd (patterns ! 2)) =
     [''CUOTA MANEJO'', ''SEGUROS'', ''TARJETA'', ''AGUA'', ''LUZ'', ''GAS'']"
  by (simp_all add: patterns_def alternatives_def)

lemma categorize_first_match:
  "categorize x =
     (if re_search (snd (patterns ! 0)) (py_str x) then ''Ingresos''
      else if re_search (snd (patterns ! 1)) (py_str x) then ''Egresos''
      else if re_search (snd (patterns ! 2)) (py_str x) then ''Servicios''
      else ''Otros'')"
  by (simp add: categorize_def patterns_def)

text \<open>
  Claim C3. The category of a description is that of the first rule, in the order Ingresos
  (income), Egresos (expense), Servicios (services), one of whose words occurs in it, and
  Otros (other) when no word of any rule occurs. So a description containing
  TRANSFERENCIA A FAVOR is income; TRANSFERENCIA BANCARIA is an expense, as is every
  description containing TRANSFERENCIA and no income word; a description without any word
  of the table is other.
\<close>

theorem categorize_order:
  "categorize (Some d) =
     (if list_ex (\<lambda>w. sublist w d)
           [''PAGO INTERBANC'', ''ABONO'', ''DEP'' @ [CHR 0xD3] @ ''SITO'',
            ''N'' @ [CHR 0xD3] @ ''MINA'', ''TRANSFERENCIA A FAVOR'']
      then ''Ingresos''
      else if list_ex (\<lambda>w. sublist w d)
           [''IMPUESTO'', ''COMISI'' @ [CHR 0xD3] @ ''N'', ''RETIRO'', ''PAGO A PROVE'',
            ''TRANSFERENCIA'']
      then ''Egresos''
      else if list_ex (\<lambda>w. sublist w d)
           [''CUOTA MANEJO'', ''SEGUROS'', ''TARJETA'', ''AGUA'', ''LUZ'', ''GAS'']
      then ''Servicios''
      else ''Otros'')
   \<and> (sublist ''TRANSFERENCIA A FAVOR'' d \<longrightarrow> categorize (Some d) = ''Ingresos'')
   \<and> categorize (Some ''TRANSFERENCIA BANCARIA'') = ''Egresos''
   \<and> (sublist ''TRANSFERENCIA'' d \<and> categorize (Some d) \<noteq> ''Ingresos'' \<longrightarrow>
        categorize (Some d) = ''Egresos'')
   \<and> (\<not> list_ex (\<lambda>p. re_search (snd p) d) patterns \<longrightarrow> categorize (Some d) = ''Otros'')"
proof (intro conjI)
  show eq: "categorize (Some d) =
     (if list_ex (\<lambda>w. sublist w d)
           [''PAGO INTERBANC'', ''ABONO'', ''DEP'' @ [CHR 0xD3] @ ''SITO'',
            ''N'' @ [CHR 0xD3] @ ''MINA'', ''TRANSFERENCIA A FAVOR'']
      then ''Ingresos''
      else if list_ex (\<lambda>w. sublist w d)
           [''IMPUESTO'', ''COMISI'' @ [CHR 0xD3] @ ''N'', ''RETIRO'', ''PAGO A PROVE'',
            ''TRANSFERENCIA'']
      then ''Egresos''
      else if list_ex (\<lambda>w. sublist w d)
           [''CUOTA MANEJO'', ''SEGUROS'', ''TARJETA'', ''AGUA'', ''LUZ'', ''GAS'']
      then ''Servicios''
      else ''Otros'')"
    unfolding categorize_first_match re_search_def alternatives_patterns
    by (simp add: py_str_def)
  show "sublist ''TRANSFERENCIA A FAVOR'' d \<longrightarrow> categorize (Some d) = ''Ingresos''"
    unfolding categorize_first_match re_search_def alternatives_patterns
    by (simp add: py_str_def)
  show "categorize (Some ''TRANSFERENCIA BANCARIA'') = ''Egresos''"
    unfolding categorize_first_match re_search_def alternatives_patterns
    by (simp add: py_str_def sublist_Cons_right)
  show "sublist ''TRANSFERENCIA'' d \<and> categorize (Some d) \<noteq> ''Ingresos'' \<longrightarrow>
        categorize (Some d) = ''Egresos''"
    unfolding categorize_first_match re_search_def alternatives_patterns
    by (simp add: py_str_def)
  show "\<not> list_ex (\<lambda>p. re_search (snd p) d) patterns \<longrightarrow> categorize (Some d) = ''Otros''"
    unfolding categorize_first_match by (simp add: patterns_def py_str_def)
qed

theorem categorize_order_witness:
  "categorize (Some ''PAGO TRANSFERENCIA A FAVOR DE X'') = ''Ingresos''
   \<and> categorize (Some ''TRANSFERENCIA BANCARIA'') = ''Egresos''
   \<and> categorize (Some ''TRANSFERENCIA SEGUROS'') = ''Egresos''
   \<and> categorize (Some ''COMPRA'') = ''Otros''"
proof (intro conjI)
  have a: "sublist ''TRANSFERENCIA A FAVOR'' ''PAGO TRANSFERENCIA A FAVOR DE X''"
    by (simp add: sublist_Cons_right)
  from categorize_order [of "''PAGO TRANSFERENCIA A FAVOR DE X''",
      THEN conjunct2, THEN conjunct1, rule_format, OF a]
  show "categorize (Some ''PAGO TRANSFERENCIA A FAVOR DE X'') = ''Ingresos''" .
  from categorize_order [of "''COMPRA''", THEN conjunct2, THEN conjunct2, THEN conjunct1]
  show "categorize (Some ''TRANSFERENCIA BANCARIA'') = ''Egresos''" .
  have c: "categorize (Some ''TRANSFERENCIA SEGUROS'') \<noteq> ''Ingresos''"
    unfolding categorize_order [of "''TRANSFERENCIA SEGUROS''", THEN conjunct1]
    by (simp add: sublist_Cons_right)
  have "sublist ''TRANSFERENCIA'' ''TRANSFERENCIA SEGUROS''"
    by simp
  from this c have c': "sublist ''TRANSFERENCIA'' ''TRANSFERENCIA SEGUROS'' \<and>
      categorize (Some ''TRANSFERENCIA SEGUROS'') \<noteq> ''Ingresos''" ..
  from categorize_order [of "''TRANSFERENCIA SEGUROS''",
      THEN conjunct2, THEN conjunct2, THEN conjunct2, THEN conjunct1, rule_format, OF c']
  show "categorize (Some ''TRANSFERENCIA SEGUROS'') = ''Egresos''" .
  have d: "\<not> list_ex (\<lambda>p. re_search (snd p) ''COMPRA'') patterns"
    by (simp add: patterns_def re_search_def alternatives_def sublist_Cons_right)
  from categorize_order [of "''COMPRA''",
      THEN conjunct2, THEN conjunct2, THEN conjunct2, THEN conjunct2, rule_format, OF d]
  show "categorize (Some ''COMPRA'') = ''Otros''" .
qed

section \<open>Properties of process_transactions\<close>

lemma rows_new_frame [simp]: "rows new_frame = []" "columns new_frame = []"
  by (simp_all add: new_frame_def)

lemma py_float_value: "py_float s = Inr v \<Longrightarrow> is_f64 v \<and> v \<noteq> NaN"
proof -
  assume "py_float s = Inr v"
  then obtain x where "v = round64 x"
    by (auto simp: py_float_def split: option.splits)
  then show ?thesis
    using round64_is_f64 [of x] by (auto simp: round64_def Let_def)
qed

lemma astype_float_values:
  "astype_float ss = Inr vs \<Longrightarrow> length vs = length ss \<and> (\<forall>v \<in> set vs. is_f64 v \<and> v \<noteq> NaN)"
proof (induction ss arbitrary: vs)
  case Nil
  then show ?case by simp
next
  case (Cons s ss)
  from Cons.prems obtain x xs where x: "py_float s = Inr x" and xs: "astype_float ss = Inr xs"
    and vs: "vs = x # xs"
    by (auto split: sum.splits)
  from py_float_value [OF x] Cons.IH [OF xs] vs show ?case by simp
qed

lemma currency_columns_values:
  assumes "currency_columns df0 = Inr df" and "r \<in> set (rows df)"
  shows "is_f64 (Valor r) \<and> Valor r \<noteq> NaN"
proof -
  from assms(1) obtain vs ss
    where v: "astype_float (map (\<lambda>r. currency_text (Valor r)) (rows df0)) = Inr vs"
      and rs: "rows df = map (\<lambda>(r, v, s). with_amounts r v s) (zip (rows df0) (zip vs ss))"
    by (auto simp: currency_columns_def split: sum.splits)
  from assms(2) obtain t where t: "t \<in> set (zip (rows df0) (zip vs ss))"
    and r: "r = (\<lambda>(r, v, s). with_amounts r v s) t"
    unfolding rs by auto
  obtain r0 v0 s0 where t': "t = (r0, v0, s0)" by (cases t) auto
  from t have "(v0, s0) \<in> set (zip vs ss)" unfolding t' by (rule set_zip_rightD)
  then have "v0 \<in> set vs" by (rule set_zip_leftD)
  moreover have "Valor r = v0" by (simp add: r t' with_amounts_def)
  ultimately show ?thesis using astype_float_values [OF v] by simp
qed

lemma returned_cases:
  "returned (process_transactions to_datetime raw_df) = new_frame \<or>
   (\<exists>df0 df. currency_columns df0 = Inr df \<and>
      returned (process_transactions to_datetime raw_df) = derive_and_sort df)"
  by (auto simp: process_transactions_def Let_def split: sum.splits)

lemma derive_row_flows:
  assumes "is_f64 (Valor r)" and "Valor r \<noteq> NaN"
  shows "Ingresos (derive_row r) =
           (if fgt (Valor (derive_row r)) (Finite 0) then Valor (derive_row r) else Finite 0)"
    and "Egresos (derive_row r) =
           (if flt (Valor (derive_row r)) (Finite 0) then fabs (Valor (derive_row r)) else Finite 0)"
    and "Flujo_Neto (derive_row r) = Valor (derive_row r)"
    and "fsub (Ingresos (derive_row r)) (Egresos (derive_row r)) = Flujo_Neto (derive_row r)"
proof -
  show "Ingresos (derive_row r) =
           (if fgt (Valor (derive_row r)) (Finite 0) then Valor (derive_row r) else Finite 0)"
    and "Egresos (derive_row r) =
           (if flt (Valor (derive_row r)) (Finite 0) then fabs (Valor (derive_row r)) else Finite 0)"
    and "Flujo_Neto (derive_row r) = Valor (derive_row r)"
    by (simp_all add: derive_row_def)
  show "fsub (Ingresos (derive_row r)) (Egresos (derive_row r)) = Flujo_Neto (derive_row r)"
  proof (cases "Valor r")
    case (Finite x)
    consider "0 < x" | "x < 0" | "x = 0" by linarith
    then show ?thesis
    proof cases
      case 1
      with fsub_zero [OF assms(1)] show ?thesis
        by (simp add: derive_row_def Finite fgt_def)
    next
      case 2
      with zero_fsub_fabs [OF assms(1)] show ?thesis
        by (simp add: derive_row_def Finite fgt_def)
    next
      case 3
      then show ?thesis
        by (simp add: derive_row_def Finite fgt_def fsub_def round64_numeral)
    qed
  next
    case PosInf
    then show ?thesis by (simp add: derive_row_def fgt_def fsub_def)
  next
    case NegInf
    then show ?thesis by (simp add: derive_row_def fgt_def fsub_def)
  next
    case NaN
    with assms(2) show ?thesis by simp
  qed
qed

lemma derive_and_sort_rows:
  "sorted (map Fecha (rows (derive_and_sort df)))"
  "r \<in> set (rows (derive_and_sort df)) \<Longrightarrow> \<exists>r0 \<in> set (rows df). r = derive_row r0"
  by (auto simp: derive_and_sort_def)

text \<open>
  Claim C2. For every raw table, hence for every valid table of six columns, the rows of the
  table that \<^verbatim>\<open>process_transactions\<close> returns are in non-decreasing order of date, and in
  every row Ingresos is the value when it is positive and 0 otherwise, Egresos is the
  absolute value when the value is negative and 0 otherwise, Flujo Neto is the value, and
  Ingresos minus Egresos, in float64, equals Flujo Neto.
\<close>

theorem process_transactions_sorted_flows:
  "sorted (map Fecha (rows (returned (process_transactions to_datetime raw_df))))
   \<and> (\<forall>r \<in> set (rows (returned (process_transactions to_datetime raw_df))).
         Ingresos r = (if fgt (Valor r) (Finite 0) then Valor r else Finite 0) \<and>
         Egresos r = (if flt (Valor r) (Finite 0) then fabs (Valor r) else Finite 0) \<and>
         Flujo_Neto r = Valor r \<and>
         fsub (Ingresos r) (Egresos r) = Flujo_Neto r)"
proof -
  let ?out = "returned (process_transactions to_datetime raw_df)"
  from returned_cases [of to_datetime raw_df]
  consider "?out = new_frame"
    | df0 df where "currency_columns df0 = Inr df" "?out = derive_and_sort df"
    by blast
  then show ?thesis
  proof cases
    case 1
    then show ?thesis by simp
  next
    case 2
    have "Ingresos r = (if fgt (Valor r) (Finite 0) then Valor r else Finite 0) \<and>
          Egresos r = (if flt (Valor r) (Finite 0) then fabs (Valor r) else Finite 0) \<and>
          Flujo_Neto r = Valor r \<and> fsub (Ingresos r) (Egresos r) = Flujo_Neto r"
      if "r \<in> set (rows (derive_and_sort df))" for r
    proof -
      from derive_and_sort_rows(2) [OF that]
      obtain r0 where r0: "r0 \<in> set (rows df)" and r: "r = derive_row r0" ..
      from currency_columns_values [OF 2(1) r0]
      have "is_f64 (Valor r0)" "Valor r0 \<noteq> NaN" by simp_all
      from derive_row_flows [OF this] show ?thesis by (simp add: r)
    qed
    then have "\<forall>r \<in> set (rows (derive_and_sort df)).
          Ingresos r = (if fgt (Valor r) (Finite 0) then Valor r else Finite 0) \<and>
          Egresos r = (if flt (Valor r) (Finite 0) then fabs (Valor r) else Finite 0) \<and>
          Flujo_Neto r = Valor r \<and> fsub (Ingresos r) (Egresos r) = Flujo_Neto r" ..
    with derive_and_sort_rows(1) [of df] show ?thesis unfolding 2(2) ..
  qed
qed

lemmas text_defs = py_str_def is_digit_def strip_currency_def strip_commas_def currency_text_def
  digits_value_def unsigned_decimal_def py_float_def round64_numeral

lemmas date_defs = dayfirst_date_def iso_date_def calendar_date_def days_in_month_def
  is_digit_def digits_value_def

lemmas process_defs = process_transactions_def df_empty_def set_columns_def coerce_Fecha_def
  name_row_def with_Fecha_def dropna_Fecha_def List.map_filter_def currency_columns_def
  with_amounts_def derive_and_sort_def derive_row_def

lemmas validate_defs = validate_balances_def df_empty_def calculated_def iloc0_def
  statement_columns_def derived_columns_def float_eval

lemma scenario_dates:
  "dayfirst_date ''01/01/2024'' = Some (2024, 1, 1)"
  "dayfirst_date ''02/01/2024'' = Some (2024, 1, 2)"
  by (simp_all add: date_defs)

lemma scenario_amounts:
  "py_float (currency_text (Some ''100,00'')) = Inr (Finite 10000)"
  "py_float (currency_text (Some ''1.000,00'')) = Inr (Finite 1)"
  "py_float (currency_text (Some ''-50,00'')) = Inr (Finite (- 5000))"
  "py_float (currency_text (Some ''950,00'')) = Inr (Finite 95000)"
  "py_float (currency_text (Some ''100.00'')) = Inr (Finite 100)"
  "py_float (currency_text (Some ''1,000.00'')) = Inr (Finite 1000)"
  "py_float (currency_text (Some ''-50.00'')) = Inr (Finite (- 50))"
  "py_float (currency_text (Some ''950.00'')) = Inr (Finite 950)"
  by (simp_all add: text_defs)

lemma scenario_categories:
  "categorize (Some ''ABONO X'') = ''Ingresos''"
  "categorize (Some (''COMISI'' @ [CHR 0xD3] @ ''N Y'')) = ''Egresos''"
  unfolding categorize_first_match re_search_def alternatives_patterns
  by (simp_all add: py_str_def sublist_Cons_right)

lemma process_scenario_raw:
  "returned (process_transactions dayfirst_date scenario_raw) =
     \<lparr>columns = statement_columns @ derived_columns,
      rows =
        [\<lparr>Fecha = (2024, 1, 1), Descripcion = Some ''ABONO X'', Sucursal = Some [],
          Doc = Some [], Valor = Finite 10000, Saldo = Finite 1, Categoria = ''Ingresos'',
          Ingresos = Finite 10000, Egresos = Finite 0, Flujo_Neto = Finite 10000,
          Saldo_Acumulado = Finite 1\<rparr>,
         \<lparr>Fecha = (2024, 1, 2), Descripcion = Some (''COMISI'' @ [CHR 0xD3] @ ''N Y''),
          Sucursal = Some [], Doc = Some [], Valor = Finite (- 5000), Saldo = Finite 95000,
          Categoria = ''Egresos'', Ingresos = Finite 0, Egresos = Finite 5000,
          Flujo_Neto = Finite (- 5000), Saldo_Acumulado = Finite 95000\<rparr>]\<rparr>"
  by (simp add: process_defs scenario_raw_def scenario_dates scenario_amounts
      scenario_categories [simplified] fgt_def)

lemma process_scenario_dots:
  "returned (process_transactions dayfirst_date scenario_dots) =
     \<lparr>columns = statement_columns @ derived_columns,
      rows =
        [\<lparr>Fecha = (2024, 1, 1), Descripcion = Some ''ABONO X'', Sucursal = Some [],
          Doc = Some [], Valor = Finite 100, Saldo = Finite 1000, Categoria = ''Ingresos'',
          Ingresos = Finite 100, Egresos = Finite 0, Flujo_Neto = Finite 100,
          Saldo_Acumulado = Finite 1000\<rparr>,
         \<lparr>Fecha = (2024, 1, 2), Descripcion = Some (''COMISI'' @ [CHR 0xD3] @ ''N Y''),
          Sucursal = Some [], Doc = Some [], Valor = Finite (- 50), Saldo = Finite 950,
          Categoria = ''Egresos'', Ingresos = Finite 0, Egresos = Finite 50,
          Flujo_Neto = Finite (- 50), Saldo_Acumulado = Finite 950\<rparr>]\<rparr>"
  "reported (process_transactions dayfirst_date scenario_dots) = []"
  by (simp_all add: process_defs scenario_dots_def scenario_dates scenario_amounts
      scenario_categories [simplified] fgt_def)

theorem process_transactions_sorted_flows_witness:
  "map Fecha (rows (returned (process_transactions dayfirst_date scenario_dots))) =
     [(2024, 1, 1), (2024, 1, 2)]
   \<and> sorted [(2024, 1, 1), (2024, 1, 2) :: date]
   \<and> fsub (Ingresos (rows (returned (process_transactions dayfirst_date scenario_dots)) ! 1))
         (Egresos (rows (returned (process_transactions dayfirst_date scenario_dots)) ! 1))
       = Flujo_Neto (rows (returned (process_transactions dayfirst_date scenario_dots)) ! 1)
   \<and> Flujo_Neto (rows (returned (process_transactions dayfirst_date scenario_dots)) ! 1)
       = Finite (- 50)"
proof -
  let ?rs = "rows (returned (process_transactions dayfirst_date scenario_dots))"
  have dates: "map Fecha ?rs = [(2024, 1, 1), (2024, 1, 2)]"
    by (simp add: process_scenario_dots)
  have mem: "?rs ! 1 \<in> set ?rs"
    by (simp add: process_scenario_dots)
  have v: "Flujo_Neto (?rs ! 1) = Finite (- 50)"
    by (simp add: process_scenario_dots)
  from process_transactions_sorted_flows [of dayfirst_date scenario_dots]
  have s: "sorted (map Fecha ?rs)"
    and f: "\<forall>r \<in> set ?rs. Ingresos r = (if fgt (Valor r) (Finite 0) then Valor r else Finite 0) \<and>
         Egresos r = (if flt (Valor r) (Finite 0) then fabs (Valor r) else Finite 0) \<and>
         Flujo_Neto r = Valor r \<and> fsub (Ingresos r) (Egresos r) = Flujo_Neto r"
    by (rule conjunct1, rule conjunct2)
  from bspec [OF f mem] have "fsub (Ingresos (?rs ! 1)) (Egresos (?rs ! 1)) = Flujo_Neto (?rs ! 1)"
    by (elim conjE)
  with dates s v show ?thesis by simp
qed

text \<open>
  Claim C4, as stated, fails: on the two raw rows of the scenario the flows are not 100 and
  -50, and \<^verbatim>\<open>validate_balances\<close> does not return a table without rows.
\<close>

theorem scenario_counterexample:
  "map Flujo_Neto (rows (returned (process_transactions dayfirst_date scenario_raw))) \<noteq>
     [Finite 100, Finite (- 50)]
   \<and> validate_balances (returned (process_transactions dayfirst_date scenario_raw)) \<noteq>
       Inr ((returned (process_transactions dayfirst_date scenario_raw))\<lparr>rows := []\<rparr>)
   \<and> validate_balances (returned (process_transactions dayfirst_date scenario_raw)) \<noteq>
       Inr new_frame"
  by (simp add: process_scenario_raw validate_defs new_frame_def)

text \<open>
  Claim C4, as amended. Line 48 removes every comma, so on the two raw rows of the scenario
  (amounts written \<^verbatim>\<open>100,00\<close>, \<^verbatim>\<open>1.000,00\<close>, \<^verbatim>\<open>-50,00\<close>, \<^verbatim>\<open>950,00\<close>) the table returned
  has 2 rows with the categories Ingresos and Egresos, the flows 10000 and -5000 and the
  balances 1 and 95000, and \<^verbatim>\<open>validate_balances\<close> returns the second row. With the
  amounts written \<^verbatim>\<open>100.00\<close>, \<^verbatim>\<open>1,000.00\<close>, \<^verbatim>\<open>-50.00\<close>, \<^verbatim>\<open>950.00\<close> the table returned has
  2 rows with the same categories, the flows 100 and -50, and \<^verbatim>\<open>validate_balances\<close>
  returns no row.
\<close>

theorem scenario_outcome:
  "length (rows (returned (process_transactions dayfirst_date scenario_raw))) = 2
   \<and> map Categoria (rows (returned (process_transactions dayfirst_date scenario_raw))) =
       [''Ingresos'', ''Egresos'']
   \<and> map Flujo_Neto (rows (returned (process_transactions dayfirst_date scenario_raw))) =
       [Finite 10000, Finite (- 5000)]
   \<and> map Saldo (rows (returned (process_transactions dayfirst_date scenario_raw))) =
       [Finite 1, Finite 95000]
   \<and> validate_balances (returned (process_transactions dayfirst_date scenario_raw)) =
       Inr ((returned (process_transactions dayfirst_date scenario_raw))
              \<lparr>rows := [rows (returned (process_transactions dayfirst_date scenario_raw)) ! 1]\<rparr>)
   \<and> length (rows (returned (process_transactions dayfirst_date scenario_dots))) = 2
   \<and> map Categoria (rows (returned (process_transactions dayfirst_date scenario_dots))) =
       [''Ingresos'', ''Egresos'']
   \<and> map Flujo_Neto (rows (returned (process_transactions dayfirst_date scenario_dots))) =
       [Finite 100, Finite (- 50)]
   \<and> validate_balances (returned (process_transactions dayfirst_date scenario_dots)) =
       Inr ((returned (process_transactions dayfirst_date scenario_dots))\<lparr>rows := []\<rparr>)"
  by (simp add: process_scenario_raw process_scenario_dots validate_defs)

theorem scenario_outcome_witness:
  "length (rows (returned (process_transactions dayfirst_date scenario_raw))) = 2
   \<and> map Flujo_Neto (rows (returned (process_transactions dayfirst_date scenario_raw))) =
       [Finite 10000, Finite (- 5000)]"
  using scenario_outcome [THEN conjunct1]
    scenario_outcome [THEN conjunct2, THEN conjunct2, THEN conjunct1]
  by (rule conjI)

text \<open>
  Claim C5. For a raw table with rows and columns whose number of columns is not six,
  \<^verbatim>\<open>process_transactions\<close> returns the empty table and sends one error message, whose
  cause is the length mismatch of line 40.
\<close>

theorem process_transactions_wrong_width:
  assumes "\<not> df_empty raw_df" and "length (columns raw_df) \<noteq> 6"
  shows "returned (process_transactions to_datetime raw_df) = new_frame
         \<and> reported (process_transactions to_datetime raw_df) =
             [St_error (Error_al_procesar_las_transacciones
                (ValueError_length_mismatch (length (columns raw_df)) 6))]"
  using assms by (simp add: process_transactions_def set_columns_def)

theorem process_transactions_wrong_width_witness:
  "\<not> df_empty five_columns \<and> length (columns five_columns) = 5
   \<and> returned (process_transactions dayfirst_date five_columns) = new_frame
   \<and> reported (process_transactions dayfirst_date five_columns) =
       [St_error (Error_al_procesar_las_transacciones (ValueError_length_mismatch 5 6))]"
proof -
  have ne: "\<not> df_empty five_columns" by (simp add: df_empty_def five_columns_def)
  have len: "length (columns five_columns) = 5" by (simp add: five_columns_def)
  then have "length (columns five_columns) \<noteq> 6" by simp
  from process_transactions_wrong_width [OF ne this, of dayfirst_date] ne len
  show ?thesis by simp
qed

text \<open>
  Claim C6. \<^verbatim>\<open>process_transactions\<close> is a total function of the model: it has no result
  that stands for an exception, since every raise of lines 40 to 63 (the length mismatch
  of line 40, a conversion to a number at line 48) is caught at line 64. On an empty table
  it returns the empty table without a message; when no cell of the first column is a date
  the table it returns is empty; when a step fails it returns the empty table and reports
  the cause; and in every case it either reports nothing or returns the empty table with
  one reported cause.
\<close>

theorem process_transactions_never_raises:
  "(df_empty raw_df \<longrightarrow>
      returned (process_transactions to_datetime raw_df) = new_frame \<and>
      reported (process_transactions to_datetime raw_df) = [])
   \<and> ((\<forall>r \<in> set (rows raw_df). Option.bind (r ! 0) to_datetime = None) \<longrightarrow>
        df_empty (returned (process_transactions to_datetime raw_df)))
   \<and> (\<forall>e. \<not> df_empty raw_df \<and> set_columns raw_df = Inl e \<longrightarrow>
        returned (process_transactions to_datetime raw_df) = new_frame \<and>
        reported (process_transactions to_datetime raw_df) =
          [St_error (Error_al_procesar_las_transacciones e)])
   \<and> (\<forall>e named. \<not> df_empty raw_df \<and> set_columns raw_df = Inr named \<and>
          currency_columns (dropna_Fecha (coerce_Fecha to_datetime named)) = Inl e \<longrightarrow>
        returned (process_transactions to_datetime raw_df) = new_frame \<and>
        reported (process_transactions to_datetime raw_df) =
          [St_error (Error_al_procesar_las_transacciones e)])
   \<and> (reported (process_transactions to_datetime raw_df) = [] \<or>
        returned (process_transactions to_datetime raw_df) = new_frame \<and>
        (\<exists>e. reported (process_transactions to_datetime raw_df) =
               [St_error (Error_al_procesar_las_transacciones e)]))"
proof (intro conjI)
  show "df_empty raw_df \<longrightarrow>
      returned (process_transactions to_datetime raw_df) = new_frame \<and>
      reported (process_transactions to_datetime raw_df) = []"
    by (simp add: process_transactions_def)
  show "(\<forall>r \<in> set (rows raw_df). Option.bind (r ! 0) to_datetime = None) \<longrightarrow>
        df_empty (returned (process_transactions to_datetime raw_df))"
  proof
    assume nat: "\<forall>r \<in> set (rows raw_df). Option.bind (r ! 0) to_datetime = None"
    have "rows (dropna_Fecha (coerce_Fecha to_datetime named)) = []"
      if "set_columns raw_df = Inr named" for named
    proof -
      from that have "rows named = map name_row (rows raw_df)"
        by (auto simp: set_columns_def split: if_splits)
      with nat show ?thesis
        by (simp add: dropna_Fecha_def coerce_Fecha_def List.map_filter_def with_Fecha_def
            name_row_def filter_empty_conv)
    qed
    then show "df_empty (returned (process_transactions to_datetime raw_df))"
      by (auto simp: process_transactions_def Let_def df_empty_def derive_and_sort_def
          currency_columns_def split: sum.splits)
  qed
  show "\<forall>e. \<not> df_empty raw_df \<and> set_columns raw_df = Inl e \<longrightarrow>
        returned (process_transactions to_datetime raw_df) = new_frame \<and>
        reported (process_transactions to_datetime raw_df) =
          [St_error (Error_al_procesar_las_transacciones e)]"
    by (simp add: process_transactions_def)
  show "\<forall>e named. \<not> df_empty raw_df \<and> set_columns raw_df = Inr named \<and>
          currency_columns (dropna_Fecha (coerce_Fecha to_datetime named)) = Inl e \<longrightarrow>
        returned (process_transactions to_datetime raw_df) = new_frame \<and>
        reported (process_transactions to_datetime raw_df) =
          [St_error (Error_al_procesar_las_transacciones e)]"
    by (simp add: process_transactions_def)
  show "reported (process_transactions to_datetime raw_df) = [] \<or>
        returned (process_transactions to_datetime raw_df) = new_frame \<and>
        (\<exists>e. reported (process_transactions to_datetime raw_df) =
               [St_error (Error_al_procesar_las_transacciones e)])"
    by (simp add: process_transactions_def Let_def split: sum.splits)
qed

lemma process_bad_amount:
  "set_columns bad_amount =
     Inr \<lparr>columns = statement_columns, rows = map name_row (rows bad_amount)\<rparr>"
  "currency_columns (dropna_Fecha (coerce_Fecha dayfirst_date
       \<lparr>columns = statement_columns, rows = map name_row (rows bad_amount)\<rparr>)) =
     Inl (ValueError_float [])"
  by (simp_all add: process_defs bad_amount_def scenario_dates text_defs)

theorem process_transactions_never_raises_witness:
  "returned (process_transactions dayfirst_date new_frame) = new_frame
   \<and> reported (process_transactions dayfirst_date new_frame) = []
   \<and> df_empty (returned (process_transactions dayfirst_date no_dates))
   \<and> returned (process_transactions dayfirst_date bad_amount) = new_frame
   \<and> reported (process_transactions dayfirst_date bad_amount) =
       [St_error (Error_al_procesar_las_transacciones (ValueError_float []))]"
proof -
  have e: "df_empty (new_frame :: cell list frame)"
    by (simp add: df_empty_def)
  have n: "\<forall>r \<in> set (rows no_dates). Option.bind (r ! 0) dayfirst_date = None"
    by (simp add: no_dates_def dayfirst_date_def)
  have b: "\<not> df_empty bad_amount \<and> set_columns bad_amount =
      Inr \<lparr>columns = statement_columns, rows = map name_row (rows bad_amount)\<rparr> \<and>
      currency_columns (dropna_Fecha (coerce_Fecha dayfirst_date
       \<lparr>columns = statement_columns, rows = map name_row (rows bad_amount)\<rparr>)) =
     Inl (ValueError_float [])"
    using process_bad_amount by (simp add: df_empty_def bad_amount_def)
  note t = process_transactions_never_raises
  from t [of new_frame dayfirst_date, THEN conjunct1, rule_format, OF e]
    t [of no_dates dayfirst_date, THEN conjunct2, THEN conjunct1, THEN mp, OF n]
    t [of bad_amount dayfirst_date, THEN conjunct2, THEN conjunct2, THEN conjunct2,
        THEN conjunct1, rule_format, OF b]
  show ?thesis by simp
qed

text \<open>
  Claim C9, as stated, fails: after the call on the raw table of the scenario, the table
  that was passed is not what it was.
\<close>

theorem argument_mutated_counterexample:
  "argument_after (process_transactions dayfirst_date scenario_raw) \<noteq> Untouched scenario_raw"
  by (simp add: process_transactions_def df_empty_def scenario_raw_def set_columns_def Let_def
      split: sum.splits)

text \<open>
  Claim C9, as amended. \<^verbatim>\<open>process_transactions\<close> leaves the table it was passed as it was
  when that table is empty or does not have six columns. Otherwise, after the call, the
  columns of that table are named Fecha, Descripcion, Sucursal, Doc, Valor, Saldo, its first
  column holds what the library read as the date of the former text (NaT where it read
  none), and its rows and their other five cells are the former ones.
\<close>

theorem process_transactions_argument:
  "(df_empty raw_df \<or> length (columns raw_df) \<noteq> 6 \<longrightarrow>
      argument_after (process_transactions to_datetime raw_df) = Untouched raw_df)
   \<and> (\<not> df_empty raw_df \<and> length (columns raw_df) = 6 \<longrightarrow>
      argument_after (process_transactions to_datetime raw_df) =
        Renamed_and_dated
          \<lparr>columns = statement_columns,
           rows = map (\<lambda>r. \<lparr>Fecha = Option.bind (r ! 0) to_datetime, Descripcion = r ! 1,
                            Sucursal = r ! 2, Doc = r ! 3, Valor = r ! 4, Saldo = r ! 5\<rparr>)
                    (rows raw_df)\<rparr>)"
  by (auto simp: process_transactions_def set_columns_def Let_def coerce_Fecha_def
      with_Fecha_def name_row_def split: sum.splits)

theorem process_transactions_argument_witness:
  "argument_after (process_transactions dayfirst_date five_columns) = Untouched five_columns
   \<and> argument_after (process_transactions dayfirst_date scenario_raw) =
       Renamed_and_dated
         \<lparr>columns = statement_columns,
          rows =
            [\<lparr>Fecha = Some (2024, 1, 1), Descripcion = Some ''ABONO X'', Sucursal = Some [],
              Doc = Some [], Valor = Some ''100,00'', Saldo = Some ''1.000,00''\<rparr>,
             \<lparr>Fecha = Some (2024, 1, 2), Descripcion = Some (''COMISI'' @ [CHR 0xD3] @ ''N Y''),
              Sucursal = Some [], Doc = Some [], Valor = Some ''-50,00'',
              Saldo = Some ''950,00''\<rparr>]\<rparr>"
proof -
  have a: "df_empty five_columns \<or> length (columns five_columns) \<noteq> 6"
    by (simp add: five_columns_def)
  have b: "\<not> df_empty scenario_raw \<and> length (columns scenario_raw) = 6"
    by (simp add: scenario_raw_def df_empty_def)
  note t = process_transactions_argument
  from t [of five_columns dayfirst_date, THEN conjunct1, rule_format, OF a]
    t [of scenario_raw dayfirst_date, THEN conjunct2, rule_format, OF b]
  show ?thesis by (simp add: scenario_raw_def scenario_dates)
qed

section \<open>Properties of load_and_process_bank_statement\<close>

text \<open>
  When the temporary file is made and written and the import of the extractor succeeds,
  the file is gone after the call, whatever the extractor and
  \<^verbatim>\<open>process_transactions\<close> make of it: both catch their own exceptions, so line 83 is
  reached.
\<close>

lemma temporary_file_removed:
  assumes "create_error env = None" and "write_error env = None" and "import_error env = None"
  shows "files_after (load_and_process_bank_statement env files (Some content)) (tmp_name env)
           = None"
  using assms
  by (auto simp: load_and_process_bank_statement_def statement_body_def extract_bank_data_def
      Let_def split: sum.splits prod.splits)

text \<open>
  Claim C8 does not hold of the code. Line 83, \<^verbatim>\<open>os.unlink(tmp_path)\<close>, stands on the
  straight path of the \<^verbatim>\<open>try\<close> block and not in a \<^verbatim>\<open>finally\<close>: when the write of
  line 79 raises, or when \<^verbatim>\<open>import camelot\<close> at line 18 raises (it stands before the
  \<^verbatim>\<open>try\<close> of \<^verbatim>\<open>extract_bank_data\<close>), the handler of line 97 reports the error and returns,
  and the temporary file is still there after the call.
\<close>

theorem temporary_file_left_behind:
  "(create_error env = None \<and> write_error env = Some e \<longrightarrow>
      files_after (load_and_process_bank_statement env files (Some content)) (tmp_name env)
        \<noteq> None \<and>
      messages (load_and_process_bank_statement env files (Some content)) =
        [St_error (Error_procesando_el_extracto e)])
   \<and> (create_error env = None \<and> write_error env = None \<and> import_error env = Some e \<longrightarrow>
      files_after (load_and_process_bank_statement env files (Some content)) (tmp_name env)
        = Some content \<and>
      messages (load_and_process_bank_statement env files (Some content)) =
        [St_error (Error_procesando_el_extracto e)])"
  by (simp add: load_and_process_bank_statement_def statement_body_def extract_bank_data_def)

theorem temporary_file_left_behind_witness:
  "files_after (load_and_process_bank_statement env_no_camelot Map.empty (Some ''%PDF-1.4''))
     ''/tmp/tmpab12cd.pdf'' = Some ''%PDF-1.4''
   \<and> messages (load_and_process_bank_statement env_no_camelot Map.empty (Some ''%PDF-1.4'')) =
       [St_error (Error_procesando_el_extracto ImportError)]"
proof -
  have h: "create_error env_no_camelot = None \<and> write_error env_no_camelot = None \<and>
      import_error env_no_camelot = Some ImportError"
    by (simp add: env_no_camelot_def env_found_def)
  have n: "tmp_name env_no_camelot = ''/tmp/tmpab12cd.pdf''"
    by (simp add: env_no_camelot_def env_found_def)
  from temporary_file_left_behind [of env_no_camelot ImportError Map.empty "''%PDF-1.4''",
      THEN conjunct2, rule_format, OF h]
  show ?thesis unfolding n .
qed

section \<open>Properties of cargar_datos_historicos\<close>

lemma keep_first_filter:
  "filter (\<lambda>q. key q = k) (keep_first key seen rs) =
     (if k \<in> set seen then []
      else (case find (\<lambda>q. key q = k) rs of None \<Rightarrow> [] | Some r \<Rightarrow> [r]))"
proof (induction rs arbitrary: seen)
  case Nil
  then show ?case by simp
next
  case (Cons r rs)
  show ?case
  proof (cases "key r \<in> set seen")
    case True
    with Cons.IH [of seen] show ?thesis by auto
  next
    case False
    with Cons.IH [of "key r # seen"] show ?thesis by auto
  qed
qed

lemma find_member:
  "r \<in> set rs \<Longrightarrow> \<exists>q. find (\<lambda>q. key q = key r) rs = Some q"
  by (induction rs) auto

lemma filter_swap: "filter P (filter Q xs) = filter Q (filter P xs)"
  by (induction xs) auto

lemma sort_values_Fecha_filter:
  assumes "filter P rs = [r]"
  shows "filter P (sort_values_Fecha rs) = [r]"
proof -
  have a: "filter P (filter (\<lambda>r. snap_Fecha r \<noteq> None) rs) =
           filter (\<lambda>r. snap_Fecha r \<noteq> None) [r]"
    unfolding filter_swap [of P] assms ..
  have b: "filter P (filter (\<lambda>r. snap_Fecha r = None) rs) =
           filter (\<lambda>r. snap_Fecha r = None) [r]"
    unfolding filter_swap [of P] assms ..
  have "filter P (sort_values_Fecha rs) =
        sort_key (\<lambda>r. the (snap_Fecha r)) (filter (\<lambda>r. snap_Fecha r \<noteq> None) [r])
          @ filter (\<lambda>r. snap_Fecha r = None) [r]"
    by (simp only: sort_values_Fecha_def filter_append filter_sort a b)
  then show ?thesis by (cases "snap_Fecha r") simp_all
qed

lemma sort_values_Fecha_dates:
  "\<exists>ds n. map snap_Fecha (sort_values_Fecha rs) = map Some ds @ replicate n None \<and> sorted ds"
proof (intro exI conjI)
  let ?dated = "sort_key (\<lambda>r. the (snap_Fecha r)) (filter (\<lambda>r. snap_Fecha r \<noteq> None) rs)"
  let ?rest = "filter (\<lambda>r. snap_Fecha r = None) rs"
  have "map snap_Fecha ?dated = map Some (map (\<lambda>r. the (snap_Fecha r)) ?dated)"
    by (auto simp: comp_def)
  moreover have "map snap_Fecha ?rest = replicate (length ?rest) None"
    by (induction rs) auto
  ultimately show "map snap_Fecha (sort_values_Fecha rs) =
      map Some (map (\<lambda>r. the (snap_Fecha r)) ?dated) @ replicate (length ?rest) None"
    by (simp only: sort_values_Fecha_def map_append)
  show "sorted (map (\<lambda>r. the (snap_Fecha r)) ?dated)"
    by (rule sorted_sort_key)
qed

text \<open>
  Claim C7. Let the loader return a table. When a row of one loaded snapshot file and a row
  of a later one have the same date, value and description, the table returned holds
  exactly one row with these three cells, and it is the first such row in the order in
  which the files were read; and in the table returned the dated rows come first, in
  non-decreasing order of date, followed by the rows without date.
\<close>

theorem cargar_datos_historicos_merged:
  assumes "dir_exists env"
    and "cargar_datos_historicos env = Inr (merged, ws)"
    and "load_snapshots env (csv_files env) = (all_dfs, ws')"
    and "i < j" and "j < length all_dfs"
    and "r1 \<in> set (rows (all_dfs ! i))" and "r2 \<in> set (rows (all_dfs ! j))"
    and "subset_key (align_snapshot (columns (all_dfs ! i)) r1) =
         subset_key (align_snapshot (columns (all_dfs ! j)) r2)"
  shows "(\<exists>r. find (\<lambda>q. subset_key q = subset_key (align_snapshot (columns (all_dfs ! i)) r1))
                 (rows (concat_snapshots all_dfs)) = Some r
              \<and> filter (\<lambda>q. subset_key q = subset_key (align_snapshot (columns (all_dfs ! i)) r1))
                   (rows merged) = [r])
         \<and> (\<exists>ds n. map snap_Fecha (rows merged) = map Some ds @ replicate n None \<and> sorted ds)"
proof -
  let ?all = "rows (concat_snapshots all_dfs)"
  let ?a1 = "align_snapshot (columns (all_dfs ! i)) r1"
  from assms(4,5) have ne: "all_dfs \<noteq> []" by auto
  with assms(3) have files: "csv_files env \<noteq> []" by auto
  from assms(1,2,3) ne files
  obtain combined where dd: "drop_duplicates (concat_snapshots all_dfs) = Inr combined"
    and m: "merged = combined\<lparr>rows := sort_values_Fecha (rows combined)\<rparr>"
    by (auto simp: cargar_datos_historicos_def split: sum.splits)
  from dd have kept: "rows combined = keep_first subset_key [] ?all"
    by (auto simp: drop_duplicates_def Let_def split: if_splits)
  from assms(4,5,6) have "?a1 \<in> set ?all"
    by (auto simp: concat_snapshots_def intro!: bexI [of _ "all_dfs ! i"])
  from find_member [OF this, of subset_key]
  obtain r where f: "find (\<lambda>q. subset_key q = subset_key ?a1) ?all = Some r" ..
  with keep_first_filter [of subset_key "subset_key ?a1" "[]" ?all]
  have "filter (\<lambda>q. subset_key q = subset_key ?a1) (rows combined) = [r]"
    by (simp add: kept)
  from sort_values_Fecha_filter [OF this] m
  have "filter (\<lambda>q. subset_key q = subset_key ?a1) (rows merged) = [r]" by simp
  moreover from m sort_values_Fecha_dates [of "rows combined"]
  have "\<exists>ds n. map snap_Fecha (rows merged) = map Some ds @ replicate n None \<and> sorted ds"
    by simp
  ultimately show ?thesis using f by blast
qed

lemma snapshot_dates:
  "iso_date ''2024-01-05'' = Some (2024, 1, 5)"
  "iso_date ''2024-01-03'' = Some (2024, 1, 3)"
  "iso_date ''2024-01-04'' = Some (2024, 1, 4)"
  by (simp_all add: date_defs)

lemma csv_files_two_snapshots:
  "csv_files two_snapshots = [''datos_bancarios/enero.csv'', ''datos_bancarios/febrero.csv'']"
  by (simp add: csv_files_def two_snapshots_def suffix_to_prefix)

lemma load_two_snapshots:
  "load_snapshots two_snapshots [''datos_bancarios/enero.csv'', ''datos_bancarios/febrero.csv''] =
     ([\<lparr>columns = snapshot_columns,
        rows = [\<lparr>snap_Fecha = Some (2024, 1, 5), snap_Valor = Some 100,
                  snap_Descripcion = Some ''ABONO X'', snap_rest = ()\<rparr>,
                \<lparr>snap_Fecha = Some (2024, 1, 3), snap_Valor = Some (- 20),
                  snap_Descripcion = Some ''RETIRO'', snap_rest = ()\<rparr>]\<rparr>,
       \<lparr>columns = snapshot_columns,
        rows = [\<lparr>snap_Fecha = Some (2024, 1, 5), snap_Valor = Some 100,
                  snap_Descripcion = Some ''ABONO X'', snap_rest = ()\<rparr>,
                \<lparr>snap_Fecha = Some (2024, 1, 4), snap_Valor = Some 7,
                  snap_Descripcion = Some ''ABONO Z'', snap_rest = ()\<rparr>]\<rparr>], [])"
  by (simp add: load_snapshot_def two_snapshots_def snapshot_columns_def snapshot_def
      snapshot_dates snap_with_Fecha_def)

lemma cargar_two_snapshots:
  "cargar_datos_historicos two_snapshots =
     Inr (\<lparr>columns = snapshot_columns,
           rows = [\<lparr>snap_Fecha = Some (2024, 1, 3), snap_Valor = Some (- 20),
                     snap_Descripcion = Some ''RETIRO'', snap_rest = ()\<rparr>,
                   \<lparr>snap_Fecha = Some (2024, 1, 4), snap_Valor = Some 7,
                     snap_Descripcion = Some ''ABONO Z'', snap_rest = ()\<rparr>,
                   \<lparr>snap_Fecha = Some (2024, 1, 5), snap_Valor = Some 100,
                     snap_Descripcion = Some ''ABONO X'', snap_rest = ()\<rparr>]\<rparr>, [])"
  unfolding cargar_datos_historicos_def csv_files_two_snapshots load_two_snapshots
  by (simp add: two_snapshots_def concat_snapshots_def union_labels_def snapshot_columns_def
      align_snapshot_def drop_duplicates_def subset_key_def sort_values_Fecha_def
      Descripcion_label_def)

theorem cargar_datos_historicos_merged_witness:
  "\<exists>merged. cargar_datos_historicos two_snapshots = Inr (merged, [])
      \<and> length (rows merged) = 3
      \<and> filter (\<lambda>q. subset_key q = (Some (2024, 1, 5), Some 100, Some ''ABONO X''))
            (rows merged) =
          [\<lparr>snap_Fecha = Some (2024, 1, 5), snap_Valor = Some 100,
            snap_Descripcion = Some ''ABONO X'', snap_rest = ()\<rparr>]"
proof -
  let ?r = "\<lparr>snap_Fecha = Some (2024, 1, 5), snap_Valor = Some (100 :: rat),
             snap_Descripcion = Some ''ABONO X'', snap_rest = ()\<rparr>"
  let ?f1 = "\<lparr>columns = snapshot_columns,
        rows = [?r, \<lparr>snap_Fecha = Some (2024, 1, 3), snap_Valor = Some (- 20),
                  snap_Descripcion = Some ''RETIRO'', snap_rest = ()\<rparr>]\<rparr>"
  let ?f2 = "\<lparr>columns = snapshot_columns,
        rows = [?r, \<lparr>snap_Fecha = Some (2024, 1, 4), snap_Valor = Some 7,
                  snap_Descripcion = Some ''ABONO Z'', snap_rest = ()\<rparr>]\<rparr>"
  obtain merged where c: "cargar_datos_historicos two_snapshots = Inr (merged, [])"
    and len: "length (rows merged) = 3"
    using cargar_two_snapshots by simp
  have d: "dir_exists two_snapshots" by (simp add: two_snapshots_def)
  have l: "load_snapshots two_snapshots (csv_files two_snapshots) = ([?f1, ?f2], [])"
    unfolding csv_files_two_snapshots load_two_snapshots ..
  have ij: "(0::nat) < 1" "1 < length [?f1, ?f2]" by simp_all
  have r1: "?r \<in> set (rows ([?f1, ?f2] ! 0))" and r2: "?r \<in> set (rows ([?f1, ?f2] ! 1))"
    by simp_all
  have k: "subset_key (align_snapshot (columns ([?f1, ?f2] ! 0)) ?r) =
           subset_key (align_snapshot (columns ([?f1, ?f2] ! 1)) ?r)"
    by simp
  have key: "subset_key (align_snapshot (columns ([?f1, ?f2] ! 0)) ?r) =
             (Some (2024, 1, 5), Some 100, Some ''ABONO X'')"
    by (simp add: subset_key_def align_snapshot_def snapshot_columns_def Descripcion_label_def)
  from cargar_datos_historicos_merged [OF d c l ij r1 r2 k]
  obtain r where f: "find (\<lambda>q. subset_key q = (Some (2024, 1, 5), Some 100, Some ''ABONO X''))
                        (rows (concat_snapshots [?f1, ?f2])) = Some r"
    and m: "filter (\<lambda>q. subset_key q = (Some (2024, 1, 5), Some 100, Some ''ABONO X''))
              (rows merged) = [r]"
    unfolding key by blast
  from f have "r = ?r"
    by (simp add: concat_snapshots_def subset_key_def align_snapshot_def snapshot_columns_def
        Descripcion_label_def)
  with c len m show ?thesis by blast
qed

end
